theory Spec2Isabelle
  imports Main "HOL-Library.Sublist" "HOL-Library.Word"
begin

section \<open>The messaging service of \<open>home_works/web_socket.py\<close>\<close>

text \<open>
  The module holds one FastAPI application: a signup endpoint that stores a name and a
  random token in the table \<open>users\<close>, a \<open>WebSocketManager\<close> keeping the dictionary
  \<open>active_connections\<close> from tokens to sockets, and the coroutine
  \<open>handle_websocket_connection\<close> that checks the token, registers the socket and
  routes every received frame.

  The coroutines are modelled sequentially: what one handler does between two received
  frames runs as one step on a record of the shared state. Interleavings of several
  handlers inside one broadcast are outside this model.
\<close>

subsection \<open>Python strings\<close>

text \<open>
  A Python \<open>str\<close> is a sequence of Unicode code points; \<open>len\<close> and slicing count code
  points. The literals of the module that are not ASCII are written as their code points.
\<close>

type_synonym ustr = "nat list"

definition ascii :: "string \<Rightarrow> ustr" where
  "ascii s = map of_char s"

text \<open>\<open>str.replace(old, new)\<close> for a one-character \<open>old\<close>.\<close>

definition replace_char :: "nat \<Rightarrow> ustr \<Rightarrow> ustr \<Rightarrow> ustr" where
  "replace_char c new s = concat (map (\<lambda>x. if x = c then new else [x]) s)"

text \<open>
  \<open>html.escape(s)\<close> of the standard library with its default \<open>quote=True\<close>: five
  replacements in this order, the ampersand first.
\<close>

definition html_escape :: "ustr \<Rightarrow> ustr" where
  "html_escape s =
     (let s1 = replace_char 38 (ascii ''&amp;'') s;
          s2 = replace_char 60 (ascii ''&lt;'') s1;
          s3 = replace_char 62 (ascii ''&gt;'') s2;
          s4 = replace_char 34 (ascii ''&quot;'') s3;
          s5 = replace_char 39 (ascii ''&#x27;'') s4
      in s5)"

subsection \<open>Exceptions, sockets and the shared state\<close>

datatype exn = WebSocketDisconnect | RuntimeError | KeyError | IntegrityError

text \<open>
  The state of one \<open>WebSocket\<close> object as the framework keeps it. \<open>PeerGone\<close> is an
  accepted socket whose client has vanished: the next write to it fails. \<open>Closed c\<close> is
  a socket on which a close frame with code \<open>c\<close> was sent, or (code 1006) one whose
  write failed.
\<close>

datatype transport = Connecting | Connected | PeerGone | Closed nat

text \<open>
  \<open>users\<close> are the rows \<open>(name, token)\<close> of the table in insertion order,
  \<open>active_connections\<close> is the dictionary of the one \<open>connection_manager\<close> in insertion
  order (sockets are named by numbers), \<open>sockets\<close> is the state of every socket and
  \<open>delivered\<close> the log of every text a \<open>send_text\<close> has put on a socket, oldest first.
\<close>

record world =
  users :: "(ustr \<times> ustr) list"
  active_connections :: "(ustr \<times> nat) list"
  sockets :: "nat \<Rightarrow> transport"
  delivered :: "(nat \<times> ustr) list"

text \<open>A procedure returns the exception it raised, if any, and the state it left.\<close>

type_synonym outcome = "exn option \<times> world"

definition and_then :: "outcome \<Rightarrow> (world \<Rightarrow> outcome) \<Rightarrow> outcome" where
  "and_then r f = (case r of (None, w) \<Rightarrow> f w | (Some e, w) \<Rightarrow> (Some e, w))"

subsection \<open>Dictionary operations\<close>

text \<open>\<open>d[k] = v\<close>: an existing key keeps its place, a new key goes last.\<close>

fun dict_set :: "'k \<Rightarrow> 'v \<Rightarrow> ('k \<times> 'v) list \<Rightarrow> ('k \<times> 'v) list" where
  "dict_set k v [] = [(k, v)]"
| "dict_set k v ((k', v') # d) = (if k' = k then (k, v) # d else (k', v') # dict_set k v d)"

text \<open>
  \<open>d.pop(k[, default])\<close>. A popped value is \<open>Some v\<close> or Python's \<open>None\<close>; the argument
  \<open>dflt\<close> is \<open>None\<close> when the call gives no default (then a missing key raises
  \<open>KeyError\<close>) and \<open>Some r\<close> when it gives the default \<open>r\<close>.
\<close>

definition dict_pop ::
  "'k \<Rightarrow> 'v option option \<Rightarrow> ('k \<times> 'v) list \<Rightarrow> exn + ('v option \<times> ('k \<times> 'v) list)" where
  "dict_pop k dflt d =
     (case map_of d k of
        Some v \<Rightarrow> Inr (Some v, filter (\<lambda>p. fst p \<noteq> k) d)
      | None \<Rightarrow> (case dflt of Some r \<Rightarrow> Inr (r, d) | None \<Rightarrow> Inl KeyError))"

subsection \<open>The framework's socket operations\<close>

text \<open>\<open>websocket.accept()\<close>: only a socket that is still connecting can be accepted.\<close>

definition accept :: "nat \<Rightarrow> world \<Rightarrow> outcome" where
  "accept ws w =
     (case sockets w ws of
        Connecting \<Rightarrow> (None, w\<lparr>sockets := (sockets w)(ws := Connected)\<rparr>)
      | _ \<Rightarrow> (Some RuntimeError, w))"

text \<open>\<open>websocket.close(code)\<close>.\<close>

definition close :: "nat \<Rightarrow> nat \<Rightarrow> world \<Rightarrow> outcome" where
  "close ws code w =
     (case sockets w ws of
        Connecting \<Rightarrow> (None, w\<lparr>sockets := (sockets w)(ws := Closed code)\<rparr>)
      | Connected \<Rightarrow> (None, w\<lparr>sockets := (sockets w)(ws := Closed code)\<rparr>)
      | PeerGone \<Rightarrow> (Some WebSocketDisconnect, w\<lparr>sockets := (sockets w)(ws := Closed 1006)\<rparr>)
      | Closed c \<Rightarrow> (Some RuntimeError, w))"

text \<open>
  \<open>websocket.send_text(message)\<close>: the text is delivered on a connected socket; a write
  to a vanished client raises \<open>WebSocketDisconnect\<close> and marks the socket, a write to a
  socket that is closed or not yet accepted raises \<open>RuntimeError\<close>.
\<close>

definition send_text :: "nat \<Rightarrow> ustr \<Rightarrow> world \<Rightarrow> outcome" where
  "send_text ws message w =
     (case sockets w ws of
        Connected \<Rightarrow> (None, w\<lparr>delivered := delivered w @ [(ws, message)]\<rparr>)
      | PeerGone \<Rightarrow> (Some WebSocketDisconnect, w\<lparr>sockets := (sockets w)(ws := Closed 1006)\<rparr>)
      | Connecting \<Rightarrow> (Some RuntimeError, w)
      | Closed c \<Rightarrow> (Some RuntimeError, w))"

subsection \<open>The database\<close>

text \<open>
  \<open>verify_access_token\<close>: \<open>SELECT token FROM users WHERE token = ?\<close>, the first row's
  token or \<open>None\<close>.
\<close>

definition verify_access_token :: "ustr \<Rightarrow> world \<Rightarrow> ustr option" where
  "verify_access_token token w =
     (case find (\<lambda>row. snd row = token) (users w) of
        Some row \<Rightarrow> Some (snd row)
      | None \<Rightarrow> None)"

subsection \<open>WebSocketManager\<close>

text \<open>
  \<open>send_broadcast_message\<close>: the loop over \<open>active_connections.items()\<close>. The test
  \<open>exclude and token in exclude\<close> is false for \<open>exclude = None\<close> and for an empty set.
  No send is guarded: the first exception leaves the loop.
\<close>

definition excluded :: "ustr set option \<Rightarrow> ustr \<Rightarrow> bool" where
  "excluded exclude token =
     (case exclude of None \<Rightarrow> False | Some s \<Rightarrow> s \<noteq> {} \<and> token \<in> s)"

fun broadcast_items :: "(ustr \<times> nat) list \<Rightarrow> ustr \<Rightarrow> ustr set option \<Rightarrow> world \<Rightarrow> outcome" where
  "broadcast_items [] message exclude w = (None, w)"
| "broadcast_items ((token, websocket) # items) message exclude w =
     (if excluded exclude token then broadcast_items items message exclude w
      else and_then (send_text websocket message w) (broadcast_items items message exclude))"

definition send_broadcast_message :: "ustr \<Rightarrow> ustr set option \<Rightarrow> world \<Rightarrow> outcome" where
  "send_broadcast_message message exclude w =
     broadcast_items (active_connections w) message exclude w"

definition send_private_message :: "ustr \<Rightarrow> ustr \<Rightarrow> world \<Rightarrow> outcome" where
  "send_private_message message access_token w =
     (case map_of (active_connections w) access_token of
        Some websocket \<Rightarrow> send_text websocket message w
      | None \<Rightarrow> (None, w))"

definition joined_notice :: "ustr \<Rightarrow> ustr" where
  "joined_notice username =
     username @ [32, 1087, 1086, 1076, 1082, 1083, 1102, 1095, 1080, 1083, 1089, 1103,
                 32, 1082, 32, 1095, 1072, 1090, 1091]"

definition establish_connection :: "nat \<Rightarrow> ustr \<Rightarrow> ustr \<Rightarrow> world \<Rightarrow> outcome" where
  "establish_connection websocket username access_token w =
     and_then (accept websocket w)
       (\<lambda>w1. send_broadcast_message (joined_notice username) (Some {access_token})
          (w1\<lparr>active_connections := dict_set access_token websocket (active_connections w1)\<rparr>))"

text \<open>\<open>terminate_connection\<close>: \<open>self.active_connections.pop(access_token, None)\<close>.\<close>

definition terminate_connection :: "ustr \<Rightarrow> world \<Rightarrow> outcome" where
  "terminate_connection access_token w =
     (case dict_pop access_token (Some None) (active_connections w) of
        Inl e \<Rightarrow> (Some e, w)
      | Inr (r, d) \<Rightarrow> (None, w\<lparr>active_connections := d\<rparr>))"

subsection \<open>The connection handler\<close>

text \<open>
  An inbound frame is the JSON object \<open>{"to": string | null, "message": string}\<close>.
  \<open>frame_to = None\<close> stands for \<open>null\<close> and for a missing key (\<open>data.get("to")\<close> is
  \<open>None\<close> for both), \<open>frame_message = None\<close> for a missing key, which
  \<open>data.get("message", "")\<close> reads as the empty string.
\<close>

record frame =
  frame_to :: "ustr option"
  frame_message :: "ustr option"

definition content_of :: "frame \<Rightarrow> ustr" where
  "content_of data =
     html_escape (take 500 (case frame_message data of None \<Rightarrow> [] | Some m \<Rightarrow> m))"

definition chat_line :: "ustr \<Rightarrow> ustr \<Rightarrow> ustr" where
  "chat_line name content = name @ ascii '' >>> '' @ content"

definition echo_line :: "ustr \<Rightarrow> ustr" where
  "echo_line content = [1042, 1099] @ ascii '' >>> '' @ content"

definition offline_notice :: "ustr \<Rightarrow> ustr" where
  "offline_notice recipient =
     [1055, 1086, 1083, 1100, 1079, 1086, 1074, 1072, 1090, 1077, 1083, 1100, 32]
     @ recipient @ [32, 1085, 1077, 32, 1074, 32, 1089, 1077, 1090, 1080, 46]"

definition left_notice :: "ustr \<Rightarrow> ustr" where
  "left_notice name =
     name @ [32, 1087, 1086, 1082, 1080, 1085, 1091, 1083, 32, 1095, 1072, 1090]"

text \<open>
  The unicast branch: \<open>SELECT token FROM users WHERE name = ?\<close>, then the test
  \<open>row and row[0] in connection_manager.active_connections\<close>.
\<close>

definition unicast :: "ustr \<Rightarrow> ustr \<Rightarrow> ustr \<Rightarrow> ustr \<Rightarrow> world \<Rightarrow> outcome" where
  "unicast name token recipient content w =
     (case find (\<lambda>row. fst row = recipient) (users w) of
        Some row \<Rightarrow>
          if snd row \<in> fst ` set (active_connections w)
          then and_then (send_private_message (chat_line name content) (snd row) w)
                 (send_private_message (echo_line content) token)
          else send_private_message (offline_notice recipient) token w
      | None \<Rightarrow> send_private_message (offline_notice recipient) token w)"

text \<open>
  The body of the \<open>while True\<close> loop for one received frame. \<open>if recipient\<close> is false for
  \<open>None\<close> and for the empty string.
\<close>

definition route :: "ustr \<Rightarrow> ustr \<Rightarrow> frame \<Rightarrow> world \<Rightarrow> outcome" where
  "route name token data w =
     (let recipient = frame_to data; content = content_of data in
      if content = [] then (None, w)
      else case recipient of
             Some r \<Rightarrow>
               if r \<noteq> [] then unicast name token r content w
               else send_broadcast_message (chat_line name content) (Some {token}) w
           | None \<Rightarrow> send_broadcast_message (chat_line name content) (Some {token}) w)"

text \<open>The \<open>except WebSocketDisconnect\<close> clause.\<close>

definition on_disconnect :: "ustr \<Rightarrow> ustr \<Rightarrow> world \<Rightarrow> outcome" where
  "on_disconnect name token w =
     and_then (terminate_connection token w) (send_broadcast_message (left_notice name) None)"

text \<open>
  What \<open>receive_json\<close> gives the loop: a frame, or the exception of a client that has
  left.
\<close>

datatype event = Frame frame | ClientDisconnect

text \<open>
  How far a handler came: its handshake was rejected, it waits in \<open>receive_json\<close> for
  the next frame, it returned after its \<open>except\<close> clause, or an exception left it.
\<close>

datatype status = Rejected | Receiving | Returned | Crashed exn

definition receive :: "ustr \<Rightarrow> ustr \<Rightarrow> event \<Rightarrow> world \<Rightarrow> outcome" where
  "receive name token ev w =
     (case ev of Frame data \<Rightarrow> route name token data w
               | ClientDisconnect \<Rightarrow> (Some WebSocketDisconnect, w))"

text \<open>
  One turn of the loop inside \<open>try\<close>: a \<open>WebSocketDisconnect\<close>, raised by the receive or
  by any send while routing, enters the \<open>except\<close> clause, whose own exceptions leave the
  handler; any other exception leaves the handler at once.
\<close>

definition turn :: "ustr \<Rightarrow> ustr \<Rightarrow> event \<Rightarrow> world \<Rightarrow> status \<times> world" where
  "turn name token ev w =
     (case receive name token ev w of
        (None, w1) \<Rightarrow> (Receiving, w1)
      | (Some WebSocketDisconnect, w1) \<Rightarrow>
          (case on_disconnect name token w1 of
             (None, w2) \<Rightarrow> (Returned, w2)
           | (Some e, w2) \<Rightarrow> (Crashed e, w2))
      | (Some e, w1) \<Rightarrow> (Crashed e, w1))"

fun receive_loop :: "ustr \<Rightarrow> ustr \<Rightarrow> event list \<Rightarrow> world \<Rightarrow> status \<times> world" where
  "receive_loop name token [] w = (Receiving, w)"
| "receive_loop name token (ev # evs) w =
     (case turn name token ev w of
        (Receiving, w1) \<Rightarrow> receive_loop name token evs w1
      | (st, w1) \<Rightarrow> (st, w1))"

definition handshake :: "nat \<Rightarrow> ustr \<Rightarrow> ustr \<Rightarrow> world \<Rightarrow> status \<times> world" where
  "handshake websocket name token w =
     (if verify_access_token token w \<noteq> Some token
      then (case close websocket 1008 w of
              (None, w1) \<Rightarrow> (Rejected, w1)
            | (Some e, w1) \<Rightarrow> (Crashed e, w1))
      else (case establish_connection websocket name token w of
              (None, w1) \<Rightarrow> (Receiving, w1)
            | (Some e, w1) \<Rightarrow> (Crashed e, w1)))"

definition handle_websocket_connection ::
  "nat \<Rightarrow> ustr \<Rightarrow> ustr \<Rightarrow> event list \<Rightarrow> world \<Rightarrow> status \<times> world" where
  "handle_websocket_connection websocket name token evs w =
     (case handshake websocket name token w of
        (Receiving, w1) \<Rightarrow> receive_loop name token evs w1
      | (st, w1) \<Rightarrow> (st, w1))"

subsection \<open>Signup\<close>

text \<open>
  \<open>secrets.token_urlsafe(32)\<close> of the standard library: 32 bytes of the system's entropy,
  here the first 32 of a stream, in URL-safe base 64 with the padding stripped from the
  right.
\<close>

type_synonym byte = "8 word"

definition token_bytes :: "nat \<Rightarrow> (nat \<Rightarrow> byte) \<Rightarrow> byte list" where
  "token_bytes nbytes entropy = map entropy [0..<nbytes]"

definition b64char :: "nat \<Rightarrow> nat" where
  "b64char i =
     (if i < 26 then 65 + i
      else if i < 52 then 97 + (i - 26)
      else if i < 62 then 48 + (i - 52)
      else if i = 62 then 45
      else 95)"

fun urlsafe_b64encode :: "byte list \<Rightarrow> ustr" where
  "urlsafe_b64encode [] = []"
| "urlsafe_b64encode [a] =
     [b64char (unat a div 4), b64char (unat a mod 4 * 16), 61, 61]"
| "urlsafe_b64encode [a, b] =
     [b64char (unat a div 4), b64char (unat a mod 4 * 16 + unat b div 16),
      b64char (unat b mod 16 * 4), 61]"
| "urlsafe_b64encode (a # b # c # bs) =
     [b64char (unat a div 4), b64char (unat a mod 4 * 16 + unat b div 16),
      b64char (unat b mod 16 * 4 + unat c div 64), b64char (unat c mod 64)]
     @ urlsafe_b64encode bs"

text \<open>\<open>s.rstrip(c)\<close> for one character \<open>c\<close>.\<close>

fun rstrip :: "nat \<Rightarrow> ustr \<Rightarrow> ustr" where
  "rstrip c [] = []"
| "rstrip c (x # xs) = (let r = rstrip c xs in if r = [] \<and> x = c then [] else x # r)"

definition token_urlsafe :: "nat \<Rightarrow> (nat \<Rightarrow> byte) \<Rightarrow> ustr" where
  "token_urlsafe nbytes entropy = rstrip 61 (urlsafe_b64encode (token_bytes nbytes entropy))"

text \<open>
  What the endpoint answers: the dictionary it returns (status 200, the decorator names no
  other), the \<open>HTTPException\<close> it raises, the framework's answer 422 to a path
  parameter outside \<open>Path(min_length=2, max_length=30)\<close>, or its answer 500 to an
  exception nobody catches.
\<close>

datatype response =
    Success ustr ustr
  | HTTPException nat ustr
  | RequestValidationError
  | InternalServerError exn

fun status_code :: "response \<Rightarrow> nat" where
  "status_code (Success message token) = 200"
| "status_code (HTTPException code detail) = code"
| "status_code RequestValidationError = 422"
| "status_code (InternalServerError e) = 500"

fun issued_token :: "response \<Rightarrow> ustr option" where
  "issued_token (Success message token) = Some token"
| "issued_token r = None"

definition account_created :: ustr where
  "account_created =
     [1040, 1082, 1082, 1072, 1091, 1085, 1090, 32, 1089, 1086, 1079, 1076, 1072, 1085,
      32, 1091, 1089, 1087, 1077, 1096, 1085, 1086]"

definition already_registered :: ustr where
  "already_registered =
     [1055, 1086, 1083, 1100, 1079, 1086, 1074, 1072, 1090, 1077, 1083, 1100, 32, 1091,
      1078, 1077, 32, 1079, 1072, 1088, 1077, 1075, 1080, 1089, 1090, 1088, 1080, 1088,
      1086, 1074, 1072, 1085]"

text \<open>
  \<open>INSERT INTO users (name, token)\<close>: the column \<open>token\<close> is \<open>UNIQUE\<close>, so a token that
  is already in the table raises \<open>sqlite3.IntegrityError\<close>.
\<close>

definition insert_user :: "ustr \<Rightarrow> ustr \<Rightarrow> world \<Rightarrow> outcome" where
  "insert_user name token w =
     (if token \<in> snd ` set (users w) then (Some IntegrityError, w)
      else (None, w\<lparr>users := users w @ [(name, token)]\<rparr>))"

definition create_user_account :: "ustr \<Rightarrow> (nat \<Rightarrow> byte) \<Rightarrow> world \<Rightarrow> response \<times> world" where
  "create_user_account name entropy w =
     (if \<not> (2 \<le> length name \<and> length name \<le> 30) then (RequestValidationError, w)
      else
        let access_token = take 32 (token_urlsafe 32 entropy) in
        if find (\<lambda>row. fst row = name) (users w) \<noteq> None
        then (HTTPException 400 already_registered, w)
        else (case insert_user name access_token w of
                (Some e, w1) \<Rightarrow> (InternalServerError e, w1)
              | (None, w1) \<Rightarrow> (Success account_created access_token, w1)))"

text \<open>The tokens the table holds for a name.\<close>

definition tokens_of :: "ustr \<Rightarrow> world \<Rightarrow> ustr list" where
  "tokens_of name w = map snd (filter (\<lambda>row. fst row = name) (users w))"

subsection \<open>Vocabulary of the statements\<close>

text \<open>
  The entries a broadcast writes to, the log entries it leaves, and the entries of
  everybody but the holder of a token.
\<close>

definition recipients :: "ustr set option \<Rightarrow> (ustr \<times> nat) list \<Rightarrow> (ustr \<times> nat) list" where
  "recipients exclude items = filter (\<lambda>p. \<not> excluded exclude (fst p)) items"

definition copies :: "ustr \<Rightarrow> (ustr \<times> nat) list \<Rightarrow> (nat \<times> ustr) list" where
  "copies message items = map (\<lambda>p. (snd p, message)) items"

definition others :: "ustr \<Rightarrow> world \<Rightarrow> (ustr \<times> nat) list" where
  "others token w = filter (\<lambda>p. fst p \<noteq> token) (active_connections w)"

text \<open>What \<open>html.escape\<close> makes of one character.\<close>

definition escape_one :: "nat \<Rightarrow> ustr" where
  "escape_one x =
     (if x = 38 then ascii ''&amp;''
      else if x = 60 then ascii ''&lt;''
      else if x = 62 then ascii ''&gt;''
      else if x = 34 then ascii ''&quot;''
      else if x = 39 then ascii ''&#x27;''
      else [x])"

text \<open>The token the unicast branch resolves a recipient to: the first row of that name.\<close>

definition lookup_by_name :: "ustr \<Rightarrow> world \<Rightarrow> ustr option" where
  "lookup_by_name recipient w =
     (case find (\<lambda>row. fst row = recipient) (users w) of
        Some row \<Rightarrow> Some (snd row)
      | None \<Rightarrow> None)"

text \<open>The tag \<open><script>\<close>, and the recipient name a received event carries.\<close>

definition script_tag :: ustr where
  "script_tag = ascii ''<script>''"

definition recipient_of :: "event \<Rightarrow> ustr" where
  "recipient_of ev =
     (case ev of
        Frame data \<Rightarrow> (case frame_to data of Some r \<Rightarrow> r | None \<Rightarrow> [])
      | ClientDisconnect \<Rightarrow> [])"

text \<open>
  The log of \<open>w'\<close> is the log of \<open>w\<close> followed by new entries whose texts all satisfy
  \<open>P\<close>.
\<close>

definition only_adds :: "(ustr \<Rightarrow> bool) \<Rightarrow> world \<Rightarrow> world \<Rightarrow> bool" where
  "only_adds P w w' \<longleftrightarrow> (\<exists>new. delivered w' = delivered w @ new \<and> (\<forall>p\<in>set new. P (snd p)))"

text \<open>
  The texts a frame can put on a socket, the texts an event of the receive loop can, and
  the texts of a whole run of a handler: its join and leave notice and the texts of its
  events.
\<close>

definition frame_texts :: "ustr \<Rightarrow> frame \<Rightarrow> ustr list" where
  "frame_texts name data =
     [chat_line name (content_of data), echo_line (content_of data)]
     @ (case frame_to data of Some r \<Rightarrow> [offline_notice r] | None \<Rightarrow> [])"

definition event_texts :: "ustr \<Rightarrow> event \<Rightarrow> ustr list" where
  "event_texts name ev =
     (case ev of Frame data \<Rightarrow> frame_texts name data | ClientDisconnect \<Rightarrow> [])"

definition run_texts :: "ustr \<Rightarrow> event list \<Rightarrow> ustr list" where
  "run_texts name evs =
     [joined_notice name, left_notice name] @ concat (map (event_texts name) evs)"

subsection \<open>Example states and frames\<close>

text \<open>Four names, and three tokens of 32 characters as the signup issues them.\<close>

definition alice :: ustr where "alice = ascii ''alice''"

definition bob :: ustr where "bob = ascii ''bob''"

definition carol :: ustr where "carol = ascii ''carol''"


definition token_A :: ustr where "token_A = replicate 32 65"

definition token_B :: ustr where "token_B = replicate 32 66"

definition token_C :: ustr where "token_C = replicate 32 67"

text \<open>A fresh database, and an entropy source that gives only zero bytes.\<close>

definition no_users :: world where
  "no_users =
     \<lparr>users = [], active_connections = [], sockets = (\<lambda>ws. Connecting), delivered = []\<rparr>"

definition zeros :: "nat \<Rightarrow> byte" where
  "zeros i = 0"

text \<open>Alice and Carol have signed up; Carol is connected on socket 1, socket 2 is new.\<close>

definition carol_online :: world where
  "carol_online =
     \<lparr>users = [(alice, token_A), (carol, token_C)],
      active_connections = [(token_C, 1)],
      sockets = (\<lambda>ws. if ws = 1 then Connected else Connecting),
      delivered = []\<rparr>"

text \<open>All three have signed up and are connected, on sockets 1, 2 and 3.\<close>

definition all_online :: world where
  "all_online =
     \<lparr>users = [(alice, token_A), (bob, token_B), (carol, token_C)],
      active_connections = [(token_A, 1), (token_B, 2), (token_C, 3)],
      sockets = (\<lambda>ws. if ws = 1 \<or> ws = 2 \<or> ws = 3 then Connected else Connecting),
      delivered = []\<rparr>"



text \<open>
  From \<open>all_online\<close>: Alice connects a second time, on socket 4, with her token; then
  her first connection, on socket 1, closes and its handler cleans up.
\<close>

definition alice_displaced :: world where
  "alice_displaced = snd (handshake 4 alice token_A all_online)"

definition alice_dropped :: world where
  "alice_dropped = snd (turn alice token_A ClientDisconnect alice_displaced)"

text \<open>
  Broadcast frames: a greeting, the tag, two bodies of 600 characters, and a body with an
  ampersand.
\<close>

definition hello :: frame where
  "hello = \<lparr>frame_to = None, frame_message = Some (ascii ''hello'')\<rparr>"

definition script_body :: frame where
  "script_body = \<lparr>frame_to = None, frame_message = Some script_tag\<rparr>"

definition long_markup :: frame where
  "long_markup = \<lparr>frame_to = None, frame_message = Some (replicate 600 60)\<rparr>"

definition long_plain :: frame where
  "long_plain = \<lparr>frame_to = None, frame_message = Some (replicate 600 97)\<rparr>"

definition amp_body :: frame where
  "amp_body = \<lparr>frame_to = None, frame_message = Some (ascii ''Tom & Jerry'')\<rparr>"


definition to_alice :: frame where
  "to_alice = \<lparr>frame_to = Some alice, frame_message = Some (ascii ''hello'')\<rparr>"



definition to_script :: frame where
  "to_script = \<lparr>frame_to = Some script_tag, frame_message = Some (ascii ''hello'')\<rparr>"


definition long_to_bob :: frame where
  "long_to_bob = \<lparr>frame_to = Some bob, frame_message = Some (replicate 600 97)\<rparr>"

section \<open>Properties\<close>

text \<open>Unfolding the names and tokens of the examples.\<close>

lemmas example_defs = alice_def bob_def carol_def token_A_def token_B_def token_C_def ascii_def

subsection \<open>Sequencing and single sends\<close>

lemma and_then_None: "and_then (None, w) f = f w"
  by (simp add: and_then_def)

lemma and_then_Some: "and_then (Some e, w) f = (Some e, w)"
  by (simp add: and_then_def)

lemma send_text_Connected:
  "sockets w ws = Connected \<Longrightarrow>
   send_text ws message w = (None, w\<lparr>delivered := delivered w @ [(ws, message)]\<rparr>)"
  by (simp add: send_text_def)


subsection \<open>Escaping\<close>

lemma replace_char_Nil: "replace_char c new [] = []"
  by (simp add: replace_char_def)

lemma replace_char_Cons:
  "replace_char c new (x # s) = (if x = c then new else [x]) @ replace_char c new s"
  by (simp add: replace_char_def)

lemma replace_char_append:
  "replace_char c new (s @ t) = replace_char c new s @ replace_char c new t"
  by (simp add: replace_char_def)

lemma html_escape_Nil: "html_escape [] = []"
  by (simp add: html_escape_def replace_char_Nil)

lemma html_escape_Cons: "html_escape (x # s) = escape_one x @ html_escape s"
  by (simp add: html_escape_def escape_one_def Let_def replace_char_Cons replace_char_append
      replace_char_Nil ascii_def)

lemma html_escape_concat: "html_escape s = concat (map escape_one s)"
  by (induction s) (simp_all add: html_escape_Nil html_escape_Cons)

lemma escape_one_eq:
  "escape_one =
     (\<lambda>x. if x = 38 then ascii ''&amp;''
          else if x = 60 then ascii ''&lt;''
          else if x = 62 then ascii ''&gt;''
          else if x = 34 then ascii ''&quot;''
          else if x = 39 then ascii ''&#x27;''
          else [x])"
  by (rule ext) (simp add: escape_one_def)

lemma escape_one_no_markup: "60 \<notin> set (escape_one x) \<and> 62 \<notin> set (escape_one x)"
  by (simp add: escape_one_def ascii_def)

lemma html_escape_no_markup: "60 \<notin> set (html_escape s) \<and> 62 \<notin> set (html_escape s)"
  by (induction s) (simp_all add: html_escape_Nil html_escape_Cons escape_one_no_markup)

lemma escape_one_no_quotes: "34 \<notin> set (escape_one x) \<and> 39 \<notin> set (escape_one x)"
  by (simp add: escape_one_def ascii_def)

lemma html_escape_no_quotes: "34 \<notin> set (html_escape s) \<and> 39 \<notin> set (html_escape s)"
  by (induction s) (simp_all add: html_escape_Nil html_escape_Cons escape_one_no_quotes)

lemma escape_one_length: "1 \<le> length (escape_one x)"
  by (simp add: escape_one_def ascii_def)

lemma html_escape_length_ge: "length s \<le> length (html_escape s)"
proof (induction s)
  case Nil
  show ?case by (simp add: html_escape_Nil)
next
  case (Cons x s)
  have "1 \<le> length (escape_one x)" by (rule escape_one_length)
  with Cons show ?case by (simp add: html_escape_Cons)
qed

lemma html_escape_plain:
  "set s \<inter> {38, 60, 62, 34, 39} = {} \<Longrightarrow> html_escape s = s"
  by (induction s) (auto simp: html_escape_Nil html_escape_Cons escape_one_def)

lemma html_escape_eq_Nil: "html_escape s = [] \<longleftrightarrow> s = []"
  by (cases s) (auto simp: html_escape_Nil html_escape_Cons escape_one_def ascii_def)

lemma length_html_escape_replicate_lt: "length (html_escape (replicate n 60)) = 4 * n"
  by (induction n) (simp_all add: html_escape_Nil html_escape_Cons escape_one_def ascii_def)

subsection \<open>Broadcasts\<close>

lemma broadcast_items_all_connected:
  "\<forall>p\<in>set (recipients exclude items). sockets w (snd p) = Connected \<Longrightarrow>
   broadcast_items items message exclude w =
     (None, w\<lparr>delivered := delivered w @ copies message (recipients exclude items)\<rparr>)"
proof (induction items arbitrary: w)
  case Nil
  show ?case by (simp add: recipients_def copies_def)
next
  case (Cons p items)
  obtain token websocket where p: "p = (token, websocket)" by (cases p)
  show ?case
  proof (cases "excluded exclude token")
    case True
    with Cons p show ?thesis by (simp add: recipients_def)
  next
    case False
    with Cons.prems p have c: "sockets w websocket = Connected"
      by (simp add: recipients_def)
    let ?w1 = "w\<lparr>delivered := delivered w @ [(websocket, message)]\<rparr>"
    from Cons.prems p False
    have "\<forall>q\<in>set (recipients exclude items). sockets ?w1 (snd q) = Connected"
      by (simp add: recipients_def)
    from Cons.IH [OF this] False p c show ?thesis
      by (simp add: send_text_Connected and_then_None recipients_def copies_def)
  qed
qed


lemma recipients_token:
  "recipients (Some {token}) items = filter (\<lambda>p. fst p \<noteq> token) items"
  by (simp add: recipients_def excluded_def)

lemma others_length:
  "distinct (map fst d) \<Longrightarrow> map_of d k = Some v \<Longrightarrow>
   length (filter (\<lambda>p. fst p \<noteq> k) d) = length d - 1"
proof (induction d)
  case Nil
  then show ?case by simp
next
  case (Cons p d)
  show ?case
  proof (cases "fst p = k")
    case True
    with Cons.prems have "k \<notin> fst ` set d" by auto
    then have "filter (\<lambda>p. fst p \<noteq> k) d = d" by (auto simp: filter_id_conv)
    with True show ?thesis by simp
  next
    case False
    with Cons have "length (filter (\<lambda>p. fst p \<noteq> k) d) = length d - 1"
      by (cases p) (auto split: if_splits)
    moreover from False Cons.prems have "d \<noteq> []" by (cases p) (auto split: if_splits)
    ultimately show ?thesis using False by (cases d) simp_all
  qed
qed

lemma others_exclude_sender:
  "distinct (map snd d) \<Longrightarrow> map_of d k = Some v \<Longrightarrow>
   v \<notin> snd ` set (filter (\<lambda>p. fst p \<noteq> k) d)"
proof
  assume d: "distinct (map snd d)" and m: "map_of d k = Some v"
    and "v \<in> snd ` set (filter (\<lambda>p. fst p \<noteq> k) d)"
  then obtain k' where k': "(k', v) \<in> set d" "k' \<noteq> k" by auto
  from m have "(k, v) \<in> set d" by (rule map_of_SomeD)
  with k' d show False
    by (metis distinct_map inj_on_def snd_conv prod.inject)
qed

subsection \<open>The registry\<close>

lemma map_of_None_keys: "map_of d k = None \<longleftrightarrow> k \<notin> fst ` set d"
  by (simp add: map_of_eq_None_iff)

lemma terminate_connection_eq:
  "terminate_connection token w =
     (None, w\<lparr>active_connections := filter (\<lambda>p. fst p \<noteq> token) (active_connections w)\<rparr>)"
proof (cases "map_of (active_connections w) token")
  case None
  then have "token \<notin> fst ` set (active_connections w)" by (simp add: map_of_None_keys)
  then have "filter (\<lambda>p. fst p \<noteq> token) (active_connections w) = active_connections w"
    by (auto simp: filter_id_conv)
  with None show ?thesis by (simp add: terminate_connection_def dict_pop_def)
next
  case (Some v)
  then show ?thesis by (simp add: terminate_connection_def dict_pop_def)
qed

text \<open>
  C9. \<open>terminate_connection\<close> never raises; for a token that has no entry it leaves the
  state as it is; a second removal of the same token changes nothing more; and after it
  the token has no entry.
\<close>

theorem terminate_connection_idempotent:
  "fst (terminate_connection token w) = None
   \<and> (token \<notin> fst ` set (active_connections w) \<longrightarrow> terminate_connection token w = (None, w))
   \<and> terminate_connection token (snd (terminate_connection token w))
       = (None, snd (terminate_connection token w))
   \<and> token \<notin> fst ` set (active_connections (snd (terminate_connection token w)))"
proof -
  have a: "token \<notin> fst ` set (active_connections w) \<Longrightarrow>
           filter (\<lambda>p. fst p \<noteq> token) (active_connections w) = active_connections w"
    by (auto simp: filter_id_conv)
  show ?thesis using a by (auto simp: terminate_connection_eq)
qed

theorem terminate_connection_idempotent_witness:
  "token_A \<notin> fst ` set (active_connections carol_online)
   \<and> terminate_connection token_A carol_online = (None, carol_online)
   \<and> active_connections (snd (terminate_connection token_C carol_online)) = []
   \<and> terminate_connection token_C (snd (terminate_connection token_C carol_online))
       = (None, snd (terminate_connection token_C carol_online))"
proof -
  have a: "token_A \<notin> fst ` set (active_connections carol_online)"
    by (simp add: carol_online_def token_A_def token_C_def)
  have b: "active_connections (snd (terminate_connection token_C carol_online)) = []"
    by (simp add: terminate_connection_eq carol_online_def)
  from a b show ?thesis
    using terminate_connection_idempotent [of token_A carol_online]
      terminate_connection_idempotent [of token_C carol_online]
    by simp
qed

subsection \<open>The log only grows\<close>

text \<open>
  Every operation only appends to the log, and only the texts it is given.
\<close>

text \<open>Every operation only appends to the log, and only the texts it is given.\<close>

lemma only_adds_refl: "only_adds P w w"
  by (simp add: only_adds_def)

lemma only_adds_trans: "only_adds P w w1 \<Longrightarrow> only_adds P w1 w2 \<Longrightarrow> only_adds P w w2"
proof -
  assume "only_adds P w w1" and "only_adds P w1 w2"
  then obtain n1 n2 where "delivered w1 = delivered w @ n1" "\<forall>p\<in>set n1. P (snd p)"
    "delivered w2 = delivered w1 @ n2" "\<forall>p\<in>set n2. P (snd p)"
    by (auto simp: only_adds_def)
  then have "delivered w2 = delivered w @ (n1 @ n2) \<and> (\<forall>p\<in>set (n1 @ n2). P (snd p))"
    by auto
  then show ?thesis unfolding only_adds_def by blast
qed

lemma only_adds_same_log: "delivered w' = delivered w \<Longrightarrow> only_adds P w w'"
  by (simp add: only_adds_def)

lemma send_text_only_adds: "P message \<Longrightarrow> only_adds P w (snd (send_text ws message w))"
  by (cases "sockets w ws") (simp_all add: send_text_def only_adds_def)

lemma and_then_only_adds:
  assumes "only_adds P w (snd r)" and "\<And>w1. only_adds P w1 (snd (f w1))"
  shows "only_adds P w (snd (and_then r f))"
proof (cases r)
  case (Pair e w1)
  show ?thesis
  proof (cases e)
    case None
    with Pair assms(1) assms(2) [of w1] show ?thesis
      by (auto simp: and_then_None intro: only_adds_trans)
  next
    case (Some x)
    with Pair assms(1) show ?thesis by (simp add: and_then_Some)
  qed
qed

lemma broadcast_items_only_adds:
  "P message \<Longrightarrow> only_adds P w (snd (broadcast_items items message exclude w))"
proof (induction items arbitrary: w)
  case Nil
  show ?case by (simp add: only_adds_refl)
next
  case (Cons p items)
  obtain token websocket where p: "p = (token, websocket)" by (cases p)
  show ?case
  proof (cases "excluded exclude token")
    case True
    with Cons p show ?thesis by simp
  next
    case False
    have "only_adds P w (snd (and_then (send_text websocket message w)
        (broadcast_items items message exclude)))"
      by (rule and_then_only_adds) (simp_all add: send_text_only_adds Cons)
    with False p show ?thesis by simp
  qed
qed

lemma send_broadcast_only_adds:
  "P message \<Longrightarrow> only_adds P w (snd (send_broadcast_message message exclude w))"
  by (simp add: send_broadcast_message_def broadcast_items_only_adds)

lemma send_private_only_adds:
  "P message \<Longrightarrow> only_adds P w (snd (send_private_message message token w))"
  by (cases "map_of (active_connections w) token")
     (simp_all add: send_private_message_def only_adds_refl send_text_only_adds)

lemma unicast_only_adds:
  assumes "P (chat_line name content)" and "P (echo_line content)"
    and "P (offline_notice recipient)"
  shows "only_adds P w (snd (unicast name token recipient content w))"
proof -
  have a: "only_adds P w (snd (and_then (send_private_message (chat_line name content) t w)
                 (send_private_message (echo_line content) token)))" for t
    by (rule and_then_only_adds) (simp_all add: send_private_only_adds assms)
  show ?thesis
    by (cases "find (\<lambda>row. fst row = recipient) (users w)")
       (simp_all add: unicast_def a send_private_only_adds assms)
qed

lemma route_adds_frame_texts:
  assumes "\<forall>m\<in>set (frame_texts name data). P m"
  shows "only_adds P w (snd (route name token data w))"
proof -
  from assms have c: "P (chat_line name (content_of data))"
    and e: "P (echo_line (content_of data))"
    by (simp_all add: frame_texts_def)
  show ?thesis
  proof (cases "frame_to data")
    case None
    then show ?thesis
      by (simp add: route_def Let_def only_adds_refl send_broadcast_only_adds c)
  next
    case (Some r)
    with assms have "P (offline_notice r)" by (simp add: frame_texts_def)
    with c e have "only_adds P w (snd (unicast name token r (content_of data) w))"
      by (intro unicast_only_adds)
    with Some show ?thesis
      by (simp add: route_def Let_def only_adds_refl send_broadcast_only_adds c)
  qed
qed

lemma on_disconnect_adds_left:
  assumes "P (left_notice name)"
  shows "only_adds P w (snd (on_disconnect name token w))"
  unfolding on_disconnect_def
proof (rule and_then_only_adds)
  show "only_adds P w (snd (terminate_connection token w))"
    by (rule only_adds_same_log) (simp add: terminate_connection_eq)
  show "only_adds P w1 (snd (send_broadcast_message (left_notice name) None w1))" for w1
    by (rule send_broadcast_only_adds) (rule assms)
qed

lemma turn_adds_event_texts:
  assumes "P (left_notice name)" and "\<forall>m\<in>set (event_texts name ev). P m"
  shows "only_adds P w (snd (turn name token ev w))"
proof -
  obtain r w1 where r: "receive name token ev w = (r, w1)"
    by (cases "receive name token ev w")
  have a: "only_adds P w w1"
  proof (cases ev)
    case (Frame data)
    with assms(2) have "\<forall>m\<in>set (frame_texts name data). P m" by (simp add: event_texts_def)
    from route_adds_frame_texts [of name data P w token, OF this] Frame r show ?thesis
      by (simp add: receive_def)
  next
    case ClientDisconnect
    with r show ?thesis by (simp add: receive_def only_adds_refl)
  qed
  show ?thesis
  proof (cases r)
    case None
    with r a show ?thesis by (simp add: turn_def)
  next
    case (Some e)
    show ?thesis
    proof (cases "e = WebSocketDisconnect")
      case True
      obtain r2 w2 where d: "on_disconnect name token w1 = (r2, w2)"
        by (cases "on_disconnect name token w1")
      from on_disconnect_adds_left [of P name w1 token, OF assms(1)] d have "only_adds P w1 w2"
        by simp
      with a have "only_adds P w w2" by (rule only_adds_trans)
      with r Some True d show ?thesis by (cases r2) (simp_all add: turn_def)
    next
      case False
      with r Some a show ?thesis by (cases e) (simp_all add: turn_def)
    qed
  qed
qed

lemma receive_loop_adds_event_texts:
  assumes "P (left_notice name)"
  shows "\<forall>ev\<in>set evs. \<forall>m\<in>set (event_texts name ev). P m \<Longrightarrow>
         only_adds P w (snd (receive_loop name token evs w))"
proof (induction evs arbitrary: w)
  case Nil
  show ?case by (simp add: only_adds_refl)
next
  case (Cons ev evs)
  obtain st w1 where t: "turn name token ev w = (st, w1)" by (cases "turn name token ev w")
  from Cons.prems have "\<forall>m\<in>set (event_texts name ev). P m" by simp
  from turn_adds_event_texts [of P name ev w token, OF assms this] t
  have a: "only_adds P w w1" by simp
  show ?case
  proof (cases "st = Receiving")
    case True
    from Cons.prems have "\<forall>ev\<in>set evs. \<forall>m\<in>set (event_texts name ev). P m" by simp
    from Cons.IH [OF this, of w1] a True t show ?thesis
      by (auto intro: only_adds_trans)
  next
    case False
    with t a show ?thesis by (cases st) simp_all
  qed
qed

lemma handshake_adds_joined:
  assumes "P (joined_notice name)"
  shows "only_adds P w (snd (handshake websocket name token w))"
proof (cases "verify_access_token token w \<noteq> Some token")
  case True
  have "delivered (snd (close websocket 1008 w)) = delivered w"
    by (cases "sockets w websocket") (simp_all add: close_def)
  then have "only_adds P w (snd (close websocket 1008 w))"
    by (rule only_adds_same_log)
  with True show ?thesis
    by (cases "close websocket 1008 w"; cases "fst (close websocket 1008 w)")
       (simp_all add: handshake_def)
next
  case False
  have "only_adds P w (snd (establish_connection websocket name token w))"
    unfolding establish_connection_def
  proof (rule and_then_only_adds)
    have "delivered (snd (accept websocket w)) = delivered w"
      by (cases "sockets w websocket") (simp_all add: accept_def)
    then show "only_adds P w (snd (accept websocket w))"
      by (rule only_adds_same_log)
  next
    fix w1 :: world
    let ?w2 = "w1\<lparr>active_connections := dict_set token websocket (active_connections w1)\<rparr>"
    have "only_adds P w1 ?w2"
      by (rule only_adds_same_log) simp
    moreover have "only_adds P ?w2
        (snd (send_broadcast_message (joined_notice name) (Some {token}) ?w2))"
      by (rule send_broadcast_only_adds) (rule assms)
    ultimately show "only_adds P w1
        (snd (send_broadcast_message (joined_notice name) (Some {token}) ?w2))"
      by (rule only_adds_trans)
  qed
  with False show ?thesis
    by (cases "establish_connection websocket name token w";
        cases "fst (establish_connection websocket name token w)")
       (simp_all add: handshake_def)
qed

lemma handler_adds_run_texts:
  assumes "\<forall>m\<in>set (run_texts name evs). P m"
    and "handle_websocket_connection websocket name token evs w = (st, w')"
  shows "only_adds P w w'"
proof -
  from assms(1) have j: "P (joined_notice name)" and l: "P (left_notice name)"
    and e: "\<forall>ev\<in>set evs. \<forall>m\<in>set (event_texts name ev). P m"
    by (simp_all add: run_texts_def)
  obtain s1 w1 where h: "handshake websocket name token w = (s1, w1)"
    by (cases "handshake websocket name token w")
  from handshake_adds_joined [of P name w websocket token, OF j] h have a: "only_adds P w w1"
    by simp
  show ?thesis
  proof (cases "s1 = Receiving")
    case True
    with h assms(2) have "receive_loop name token evs w1 = (st, w')"
      by (simp add: handle_websocket_connection_def)
    with receive_loop_adds_event_texts [of P name evs w1 token, OF l e] have "only_adds P w1 w'"
      by simp
    with a show ?thesis by (rule only_adds_trans)
  next
    case False
    with h assms(2) have "w' = w1"
      by (cases s1) (simp_all add: handle_websocket_connection_def)
    with a show ?thesis by simp
  qed
qed

subsection \<open>Token lookup\<close>

lemma verify_access_token_iff:
  "verify_access_token token w = Some token \<longleftrightarrow> token \<in> snd ` set (users w)"
proof (cases "find (\<lambda>row. snd row = token) (users w)")
  case None
  then have "token \<notin> snd ` set (users w)" by (auto simp: find_None_iff)
  with None show ?thesis by (simp add: verify_access_token_def)
next
  case (Some row)
  then have "row \<in> set (users w) \<and> snd row = token"
    by (auto simp: find_Some_iff)
  with Some show ?thesis by (auto simp: verify_access_token_def)
qed

subsection \<open>The handshake\<close>

text \<open>
  C2, as the code has it. The handshake looks the token up in the table and never reads
  the name. A handshake whose token is in no row of \<open>users\<close> closes the new socket with
  code 1008 and changes nothing else: the registry, the table and the log of delivered
  texts stay as they were, so no entry is registered and no join notice is sent, whatever
  frames the client would have sent afterwards.
\<close>

theorem unknown_token_rejected:
  assumes "token \<notin> snd ` set (users w)" and "sockets w websocket = Connecting"
  shows "handle_websocket_connection websocket name token evs w
           = (Rejected, w\<lparr>sockets := (sockets w)(websocket := Closed 1008)\<rparr>)"
  using assms
  by (simp add: handle_websocket_connection_def handshake_def verify_access_token_iff close_def)

theorem unknown_token_rejected_witness:
  "token_B \<notin> snd ` set (users carol_online) \<and> sockets carol_online 2 = Connecting
   \<and> fst (handle_websocket_connection 2 bob token_B [] carol_online) = Rejected
   \<and> sockets (snd (handle_websocket_connection 2 bob token_B [] carol_online)) 2 = Closed 1008
   \<and> active_connections (snd (handle_websocket_connection 2 bob token_B [] carol_online))
       = [(token_C, 1)]
   \<and> delivered (snd (handle_websocket_connection 2 bob token_B [] carol_online)) = []"
proof -
  have a: "token_B \<notin> snd ` set (users carol_online)"
    by (simp add: carol_online_def token_A_def token_B_def token_C_def)
  have b: "sockets carol_online 2 = Connecting" by (simp add: carol_online_def)
  show ?thesis using a b unknown_token_rejected [OF a b, of bob "[]"]
    by (simp add: carol_online_def)
qed

text \<open>
  C2 as stated fails: Alice's token presented under the name \<open>bob\<close>, a pair that is no
  row of the table, is accepted; the socket is registered and Carol receives the join
  notice for \<open>bob\<close>.
\<close>

theorem name_not_checked_counterexample:
  "(bob, token_A) \<notin> set (users carol_online)
   \<and> fst (handle_websocket_connection 2 bob token_A [] carol_online) = Receiving
   \<and> active_connections (snd (handle_websocket_connection 2 bob token_A [] carol_online))
       = [(token_C, 1), (token_A, 2)]
   \<and> delivered (snd (handle_websocket_connection 2 bob token_A [] carol_online))
       = [(1, joined_notice bob)]"
  by (simp add: handle_websocket_connection_def handshake_def verify_access_token_def carol_online_def token_A_def token_C_def
     establish_connection_def accept_def and_then_def send_broadcast_message_def excluded_def send_text_def
     alice_def bob_def carol_def ascii_def)

subsection \<open>Registering a socket\<close>

lemma dict_set_keys: "fst ` set (dict_set k v d) = insert k (fst ` set d)"
proof (induction d)
  case Nil
  show ?case by simp
next
  case (Cons p d)
  obtain k' v' where p: "p = (k', v')" by (cases p)
  show ?case
  proof (cases "k' = k")
    case True
    with p show ?thesis by simp
  next
    case False
    with p Cons show ?thesis by (simp add: insert_commute)
  qed
qed

lemma dict_set_distinct: "distinct (map fst d) \<Longrightarrow> distinct (map fst (dict_set k v d))"
  by (induction d) (auto simp: dict_set_keys)

lemma map_of_dict_set: "map_of (dict_set k v d) k' = (if k' = k then Some v else map_of d k')"
  by (induction d) auto

lemma dict_set_length: "k \<in> fst ` set d \<Longrightarrow> length (dict_set k v d) = length d"
proof (induction d)
  case Nil
  then show ?case by simp
next
  case (Cons p d)
  obtain k' v' where p: "p = (k', v')" by (cases p)
  show ?case
  proof (cases "k' = k")
    case True
    with p show ?thesis by simp
  next
    case False
    with p Cons.prems have "k \<in> fst ` set d" by auto
    with Cons.IH p False show ?thesis by simp
  qed
qed

lemma dict_set_one_entry:
  "distinct (map fst d) \<Longrightarrow> length (filter (\<lambda>p. fst p = k) (dict_set k v d)) = 1"
proof (induction d)
  case Nil
  show ?case by simp
next
  case (Cons p d)
  obtain k' v' where p: "p = (k', v')" by (cases p)
  show ?case
  proof (cases "k' = k")
    case True
    with Cons.prems p have "k \<notin> fst ` set d" by auto
    then have "filter (\<lambda>p. fst p = k) d = []" by (auto simp: filter_empty_conv)
    with True p show ?thesis by simp
  next
    case False
    with Cons p show ?thesis by simp
  qed
qed

lemma send_text_keeps:
  "send_text ws message w = (r, w') \<Longrightarrow>
   active_connections w' = active_connections w \<and> users w' = users w
   \<and> (sockets w s = Connected \<longrightarrow> sockets w' s = Connected)"
  by (cases "sockets w ws") (auto simp: send_text_def)

lemma broadcast_items_keeps:
  "broadcast_items items message exclude w = (r, w') \<Longrightarrow>
   active_connections w' = active_connections w \<and> users w' = users w
   \<and> (sockets w s = Connected \<longrightarrow> sockets w' s = Connected)"
proof (induction items arbitrary: w)
  case Nil
  then show ?case by simp
next
  case (Cons p items)
  obtain token websocket where p: "p = (token, websocket)" by (cases p)
  show ?case
  proof (cases "excluded exclude token")
    case True
    with Cons p show ?thesis by simp
  next
    case False
    obtain r1 w1 where s: "send_text websocket message w = (r1, w1)"
      by (cases "send_text websocket message w")
    note k = send_text_keeps [OF s, of s]
    show ?thesis
    proof (cases r1)
      case None
      with Cons.prems p False s have "broadcast_items items message exclude w1 = (r, w')"
        by (simp add: and_then_None)
      from Cons.IH [OF this] k show ?thesis by simp
    next
      case (Some e)
      with Cons.prems p False s have "w' = w1" by (simp add: and_then_Some)
      with k show ?thesis by simp
    qed
  qed
qed

text \<open>
  C6, as the code has it. \<open>establish_connection\<close> on a new socket, for a token that
  already has an entry, overwrites the entry in place: afterwards the token maps to the
  new socket, the registry has the same length, exactly one entry for the token and
  distinct keys, and the connection that was registered before is not closed: if it was
  connected it still is.
\<close>

theorem establish_connection_overwrites:
  assumes "sockets w websocket = Connecting"
    and "distinct (map fst (active_connections w))"
    and "map_of (active_connections w) access_token = Some old"
  shows "\<exists>r w'. establish_connection websocket username access_token w = (r, w')
     \<and> active_connections w' = dict_set access_token websocket (active_connections w)
     \<and> map_of (active_connections w') access_token = Some websocket
     \<and> length (filter (\<lambda>p. fst p = access_token) (active_connections w')) = 1
     \<and> length (active_connections w') = length (active_connections w)
     \<and> distinct (map fst (active_connections w'))
     \<and> (sockets w old = Connected \<longrightarrow> sockets w' old = Connected)"
proof -
  let ?w1 = "w\<lparr>sockets := (sockets w)(websocket := Connected)\<rparr>"
  let ?w2 = "?w1\<lparr>active_connections := dict_set access_token websocket (active_connections ?w1)\<rparr>"
  obtain r w' where b: "broadcast_items (active_connections ?w2) (joined_notice username)
      (Some {access_token}) ?w2 = (r, w')"
    by (cases "broadcast_items (active_connections ?w2) (joined_notice username)
      (Some {access_token}) ?w2")
  from assms(1) b have e: "establish_connection websocket username access_token w = (r, w')"
    by (simp add: establish_connection_def accept_def and_then_None send_broadcast_message_def)
  note k = broadcast_items_keeps [OF b, of old]
  from k have reg: "active_connections w' = dict_set access_token websocket (active_connections w)"
    by simp
  from assms(3) have "access_token \<in> fst ` set (active_connections w)"
    by (metis map_of_None_keys option.distinct(1))
  then have len: "length (active_connections w') = length (active_connections w)"
    using reg by (simp add: dict_set_length)
  from k have op: "sockets w old = Connected \<longrightarrow> sockets w' old = Connected"
    by simp
  from e reg len op assms(2) show ?thesis
    by (simp add: map_of_dict_set dict_set_one_entry dict_set_distinct)
qed

theorem establish_connection_overwrites_witness:
  "sockets carol_online 2 = Connecting
   \<and> map_of (active_connections carol_online) token_C = Some 1
   \<and> active_connections (snd (establish_connection 2 carol token_C carol_online)) = [(token_C, 2)]
   \<and> sockets (snd (establish_connection 2 carol token_C carol_online)) 1 = Connected"
proof -
  have a: "sockets carol_online 2 = Connecting" by (simp add: carol_online_def)
  have b: "distinct (map fst (active_connections carol_online))" by (simp add: carol_online_def)
  have c: "map_of (active_connections carol_online) token_C = Some 1" by (simp add: carol_online_def)
  have d: "sockets carol_online 1 = Connected" by (simp add: carol_online_def)
  have e: "dict_set token_C 2 (active_connections carol_online) = [(token_C, 2)]"
    by (simp add: carol_online_def)
  from establish_connection_overwrites [OF a b c, of carol] a c d e show ?thesis
    by auto
qed

text \<open>
  C6 as stated fails: Carol is connected on socket 1; a second handshake with her token on
  socket 2 replaces the entry, and socket 1 is still connected afterwards, never closed.
\<close>

theorem no_eviction_counterexample:
  "map_of (active_connections carol_online) token_C = Some 1
   \<and> sockets carol_online 1 = Connected
   \<and> fst (establish_connection 2 carol token_C carol_online) = None
   \<and> active_connections (snd (establish_connection 2 carol token_C carol_online)) = [(token_C, 2)]
   \<and> sockets (snd (establish_connection 2 carol token_C carol_online)) 1 = Connected
   \<and> delivered (snd (establish_connection 2 carol token_C carol_online)) = []"
  by (simp add: carol_online_def establish_connection_def accept_def and_then_def
      send_broadcast_message_def excluded_def)

subsection \<open>A second connection on a registered token\<close>

text \<open>
  The two example states that a second handshake of Alice and the close of her first
  connection lead to.
\<close>

lemma alice_displaced_eq:
  "handshake 4 alice token_A all_online =
     (Receiving,
      all_online\<lparr>sockets := (sockets all_online)(4 := Connected),
        active_connections := [(token_A, 4), (token_B, 2), (token_C, 3)],
        delivered := [(2, joined_notice alice), (3, joined_notice alice)]\<rparr>)"
  by (simp add: handshake_def verify_access_token_def all_online_def
      establish_connection_def accept_def and_then_def send_broadcast_message_def
      excluded_def send_text_def example_defs)

lemma alice_displaced_state:
  "alice_displaced =
     all_online\<lparr>sockets := (sockets all_online)(4 := Connected),
        active_connections := [(token_A, 4), (token_B, 2), (token_C, 3)],
        delivered := [(2, joined_notice alice), (3, joined_notice alice)]\<rparr>"
  by (simp add: alice_displaced_def alice_displaced_eq)

lemma alice_dropped_eq:
  "turn alice token_A ClientDisconnect alice_displaced =
     (Returned,
      all_online\<lparr>sockets := (sockets all_online)(4 := Connected),
        active_connections := [(token_B, 2), (token_C, 3)],
        delivered := [(2, joined_notice alice), (3, joined_notice alice),
                      (2, left_notice alice), (3, left_notice alice)]\<rparr>)"
  unfolding alice_displaced_state
  by (simp add: turn_def receive_def on_disconnect_def
      terminate_connection_eq and_then_def send_broadcast_message_def excluded_def
      send_text_def all_online_def token_A_def token_B_def token_C_def)

lemma alice_dropped_state:
  "alice_dropped =
     all_online\<lparr>sockets := (sockets all_online)(4 := Connected),
        active_connections := [(token_B, 2), (token_C, 3)],
        delivered := [(2, joined_notice alice), (3, joined_notice alice),
                      (2, left_notice alice), (3, left_notice alice)]\<rparr>"
  by (simp add: alice_dropped_def alice_dropped_eq)

subsection \<open>Routing a broadcast\<close>

lemma route_broadcast:
  "frame_to data = None \<Longrightarrow> content_of data \<noteq> [] \<Longrightarrow>
   route name token data w =
     send_broadcast_message (chat_line name (content_of data)) (Some {token}) w"
  by (simp add: route_def Let_def)

lemma route_broadcast_empty_name:
  "frame_to data = Some [] \<Longrightarrow> content_of data \<noteq> [] \<Longrightarrow>
   route name token data w =
     send_broadcast_message (chat_line name (content_of data)) (Some {token}) w"
  by (simp add: route_def Let_def)

lemma send_broadcast_all_connected:
  assumes "\<forall>p\<in>set (others token w). sockets w (snd p) = Connected"
  shows "send_broadcast_message message (Some {token}) w =
     (None, w\<lparr>delivered := delivered w @ copies message (others token w)\<rparr>)"
proof -
  have r: "recipients (Some {token}) (active_connections w) = others token w"
    by (simp add: recipients_token others_def)
  from assms have "\<forall>p\<in>set (recipients (Some {token}) (active_connections w)).
      sockets w (snd p) = Connected"
    by (simp add: r)
  from broadcast_items_all_connected [OF this] show ?thesis
    by (simp add: send_broadcast_message_def r)
qed

lemma others_distinct:
  "distinct (map snd (active_connections w)) \<Longrightarrow> distinct (map snd (others token w))"
  by (simp add: others_def distinct_map_filter)

lemma content_of_hello: "content_of hello = ascii ''hello''"
  by (simp add: content_of_def hello_def html_escape_Cons html_escape_Nil escape_one_def ascii_def)

lemma others_all_online: "others token_A all_online = [(token_B, 2), (token_C, 3)]"
  by (simp add: others_def all_online_def example_defs)

text \<open>
  C3, as the code has it. The registry, not the set of open sockets, decides who is
  reached. In a registry of \<open>N\<close> entries with distinct tokens and distinct sockets, all
  connected, a frame without recipient and with a non-empty escaped body, sent by the
  holder of \<open>token\<close>, returns normally and appends to the log exactly one copy of
  \<open>name >>> body\<close> for each entry of another token, in registry order: these are
  \<open>N - 1\<close> entries on distinct sockets, every registered socket but the sender's, and
  the sender's socket is not among them.
\<close>

theorem broadcast_reaches_all_others:
  assumes "distinct (map fst (active_connections w))"
    and "distinct (map snd (active_connections w))"
    and "map_of (active_connections w) token = Some websocket"
    and "\<forall>p\<in>set (active_connections w). sockets w (snd p) = Connected"
    and "frame_to data = None"
    and "content_of data \<noteq> []"
  shows "route name token data w =
           (None, w\<lparr>delivered := delivered w
              @ copies (chat_line name (content_of data)) (others token w)\<rparr>)
     \<and> length (others token w) = length (active_connections w) - 1
     \<and> distinct (map snd (others token w))
     \<and> websocket \<notin> snd ` set (others token w)
     \<and> snd ` set (others token w) = snd ` set (active_connections w) - {websocket}"
proof -
  from assms(4) have c: "\<forall>p\<in>set (others token w). sockets w (snd p) = Connected"
    by (simp add: others_def)
  have a: "route name token data w =
           (None, w\<lparr>delivered := delivered w
              @ copies (chat_line name (content_of data)) (others token w)\<rparr>)"
    using route_broadcast [OF assms(5,6)] send_broadcast_all_connected [OF c] by simp
  have b: "length (others token w) = length (active_connections w) - 1"
    using others_length [OF assms(1,3)] by (simp add: others_def)
  have d: "websocket \<notin> snd ` set (others token w)"
    using others_exclude_sender [OF assms(2,3)] by (simp add: others_def)
  have e: "snd ` set (others token w) = snd ` set (active_connections w) - {websocket}"
  proof
    show "snd ` set (others token w) \<subseteq> snd ` set (active_connections w) - {websocket}"
      using d by (auto simp: others_def)
  next
    show "snd ` set (active_connections w) - {websocket} \<subseteq> snd ` set (others token w)"
    proof
      fix s assume "s \<in> snd ` set (active_connections w) - {websocket}"
      then obtain k where k: "(k, s) \<in> set (active_connections w)" "s \<noteq> websocket" by auto
      from assms(1) k(1) have "map_of (active_connections w) k = Some s" by simp
      with assms(3) k(2) have "k \<noteq> token" by auto
      with k(1) have "(k, s) \<in> set (others token w)" by (simp add: others_def)
      then show "s \<in> snd ` set (others token w)" by force
    qed
  qed
  from a b d e others_distinct [OF assms(2)] show ?thesis by simp
qed

theorem broadcast_reaches_all_others_witness:
  "route alice token_A hello all_online =
     (None, all_online\<lparr>delivered :=
        [(2, ascii ''alice >>> hello''), (3, ascii ''alice >>> hello'')]\<rparr>)
   \<and> length (others token_A all_online) = 2"
proof -
  have 1: "distinct (map fst (active_connections all_online))"
    by (simp add: all_online_def example_defs)
  have 2: "distinct (map snd (active_connections all_online))"
    by (simp add: all_online_def)
  have 3: "map_of (active_connections all_online) token_A = Some 1"
    by (simp add: all_online_def)
  have 4: "\<forall>p\<in>set (active_connections all_online). sockets all_online (snd p) = Connected"
    by (simp add: all_online_def)
  have 5: "frame_to hello = None" by (simp add: hello_def)
  have c: "content_of hello = ascii ''hello''"
    by (simp add: content_of_def hello_def html_escape_Cons html_escape_Nil escape_one_def ascii_def)
  then have 6: "content_of hello \<noteq> []" by (simp add: ascii_def)
  have o: "others token_A all_online = [(token_B, 2), (token_C, 3)]"
    by (simp add: others_def all_online_def example_defs)
  have d: "delivered all_online = []" by (simp add: all_online_def)
  have l: "chat_line alice (ascii ''hello'') = ascii ''alice >>> hello''"
    by (simp add: chat_line_def example_defs)
  from broadcast_reaches_all_others [OF 1 2 3 4 5 6, of alice] show ?thesis
    by (simp add: o c d l copies_def)
qed

text \<open>
  C3 as stated fails in a state the handlers reach. Alice, Bob and Carol are connected;
  Alice connects a second time, on socket 4, and her first connection closes, whose
  cleanup removes the entry of her token. Three users are connected, on sockets 2, 3 and
  4, but Bob's broadcast is delivered to Carol alone.
\<close>

theorem unregistered_user_missed_counterexample:
  "alice_dropped = snd (turn alice token_A ClientDisconnect (snd (handshake 4 alice token_A all_online)))
   \<and> sockets alice_dropped 2 = Connected \<and> sockets alice_dropped 3 = Connected
   \<and> sockets alice_dropped 4 = Connected
   \<and> fst (handshake 4 alice token_A all_online) = Receiving
   \<and> active_connections alice_dropped = [(token_B, 2), (token_C, 3)]
   \<and> route bob token_B hello alice_dropped
       = (None, alice_dropped\<lparr>delivered := delivered alice_dropped
            @ [(3, chat_line bob (content_of hello))]\<rparr>)"
proof -
  have a: "alice_dropped = snd (turn alice token_A ClientDisconnect (snd (handshake 4 alice token_A all_online)))"
    by (simp add: alice_dropped_def alice_displaced_def)
  have s: "sockets alice_dropped 2 = Connected \<and> sockets alice_dropped 3 = Connected
     \<and> sockets alice_dropped 4 = Connected"
    by (simp add: alice_dropped_state all_online_def)
  have r: "active_connections alice_dropped = [(token_B, 2), (token_C, 3)]"
    by (simp add: alice_dropped_state)
  have 5: "frame_to hello = None" by (simp add: hello_def)
  have 6: "content_of hello \<noteq> []" by (simp add: content_of_hello ascii_def)
  have o: "others token_B alice_dropped = [(token_C, 3)]"
    by (simp add: others_def r token_B_def token_C_def)
  have 4: "\<forall>p\<in>set (others token_B alice_dropped). sockets alice_dropped (snd p) = Connected"
    using s by (simp add: o)
  from route_broadcast [OF 5 6, of bob token_B alice_dropped]
    send_broadcast_all_connected [OF 4, of "chat_line bob (content_of hello)"]
  have b: "route bob token_B hello alice_dropped
       = (None, alice_dropped\<lparr>delivered := delivered alice_dropped
            @ [(3, chat_line bob (content_of hello))]\<rparr>)"
    by (simp add: o copies_def)
  from a s r b alice_displaced_eq show ?thesis by simp
qed


subsection \<open>Routing a unicast\<close>

lemma send_private_message_Connected:
  "map_of (active_connections w) token = Some websocket \<Longrightarrow> sockets w websocket = Connected \<Longrightarrow>
   send_private_message message token w
     = (None, w\<lparr>delivered := delivered w @ [(websocket, message)]\<rparr>)"
  by (simp add: send_private_message_def send_text_Connected)


lemma route_unicast:
  "frame_to data = Some r \<Longrightarrow> r \<noteq> [] \<Longrightarrow> content_of data \<noteq> [] \<Longrightarrow>
   route name token data w = unicast name token r (content_of data) w"
  by (simp add: route_def Let_def)


lemma lookup_by_name_find:
  "lookup_by_name r w = Some t \<Longrightarrow>
   \<exists>row. find (\<lambda>row. fst row = r) (users w) = Some row \<and> snd row = t"
  by (cases "find (\<lambda>row. fst row = r) (users w)") (simp_all add: lookup_by_name_def)

lemma unicast_online:
  assumes "lookup_by_name r w = Some t"
    and "map_of (active_connections w) t = Some rs" and "sockets w rs = Connected"
    and "map_of (active_connections w) token = Some ws" and "sockets w ws = Connected"
  shows "unicast name token r content w =
     (None, w\<lparr>delivered := delivered w
        @ [(rs, chat_line name content), (ws, echo_line content)]\<rparr>)"
proof -
  from lookup_by_name_find [OF assms(1)] obtain row
    where f: "find (\<lambda>row. fst row = r) (users w) = Some row" "snd row = t" by blast
  from assms(2) have k: "t \<in> fst ` set (active_connections w)"
    by (metis map_of_None_keys option.distinct(1))
  let ?w1 = "w\<lparr>delivered := delivered w @ [(rs, chat_line name content)]\<rparr>"
  have 1: "send_private_message (chat_line name content) t w = (None, ?w1)"
    by (rule send_private_message_Connected [OF assms(2,3)])
  have a: "map_of (active_connections ?w1) token = Some ws" using assms(4) by simp
  have b: "sockets ?w1 ws = Connected" using assms(5) by simp
  have 2: "send_private_message (echo_line content) token ?w1
     = (None, ?w1\<lparr>delivered := delivered ?w1 @ [(ws, echo_line content)]\<rparr>)"
    by (rule send_private_message_Connected [OF a b])
  from f k 1 2 show ?thesis by (simp add: unicast_def and_then_None)
qed







subsection \<open>A send that fails during a broadcast\<close>





subsection \<open>Truncation\<close>

text \<open>
  C7, as the code has it. A body of 600 characters is cut to its first 500 characters and
  then escaped: the escaped prefix has at least 500 characters, and exactly the 500 of
  the prefix when none of them is one of \<open>& < > " '\<close>. On every path the frame can take,
  broadcast or unicast, whatever the state, a text appended to the log is the chat line
  or the echo line built from the escaped prefix, or the offline notice, which carries no
  body. When the frame is broadcast to connected recipients each gets the chat line; when
  it is addressed to a recipient registered on a connected socket, that socket gets the
  chat line and the sender's socket the echo line.
\<close>

theorem long_body_truncated_then_escaped:
  assumes "frame_message data = Some body" and "length body = 600"
  shows "length (take 500 body) = 500
     \<and> content_of data = html_escape (take 500 body)
     \<and> 500 \<le> length (content_of data)
     \<and> (set (take 500 body) \<inter> {38, 60, 62, 34, 39} = {}
          \<longrightarrow> content_of data = take 500 body \<and> length (content_of data) = 500)
     \<and> (\<exists>new. delivered (snd (route name token data w)) = delivered w @ new
          \<and> (\<forall>p\<in>set new.
                 snd p = chat_line name (html_escape (take 500 body))
               \<or> snd p = echo_line (html_escape (take 500 body))
               \<or> (\<exists>r. frame_to data = Some r \<and> snd p = offline_notice r)))
     \<and> ((frame_to data = None \<or> frame_to data = Some [])
          \<and> (\<forall>p\<in>set (others token w). sockets w (snd p) = Connected)
          \<longrightarrow> route name token data w =
                (None, w\<lparr>delivered := delivered w
                   @ copies (chat_line name (html_escape (take 500 body))) (others token w)\<rparr>))
     \<and> (\<forall>r t rs ws.
            frame_to data = Some r \<and> r \<noteq> [] \<and> lookup_by_name r w = Some t
          \<and> map_of (active_connections w) t = Some rs \<and> sockets w rs = Connected
          \<and> map_of (active_connections w) token = Some ws \<and> sockets w ws = Connected
          \<longrightarrow> route name token data w =
                (None, w\<lparr>delivered := delivered w
                   @ [(rs, chat_line name (html_escape (take 500 body))),
                      (ws, echo_line (html_escape (take 500 body)))]\<rparr>))"
proof -
  from assms(2) have l: "length (take 500 body) = 500" by simp
  from assms(1) have c: "content_of data = html_escape (take 500 body)"
    by (simp add: content_of_def)
  from l html_escape_length_ge [of "take 500 body"] c
  have g: "500 \<le> length (content_of data)" by simp
  then have n: "content_of data \<noteq> []" by auto
  have p: "set (take 500 body) \<inter> {38, 60, 62, 34, 39} = {}
          \<longrightarrow> content_of data = take 500 body \<and> length (content_of data) = 500"
    using html_escape_plain [of "take 500 body"] c l by simp
  have "only_adds (\<lambda>m. m \<in> set (frame_texts name data)) w (snd (route name token data w))"
    by (rule route_adds_frame_texts) simp
  then obtain new where new: "delivered (snd (route name token data w)) = delivered w @ new"
    "\<forall>p\<in>set new. snd p \<in> set (frame_texts name data)"
    by (auto simp: only_adds_def)
  have "\<forall>p\<in>set new.
                 snd p = chat_line name (html_escape (take 500 body))
               \<or> snd p = echo_line (html_escape (take 500 body))
               \<or> (\<exists>r. frame_to data = Some r \<and> snd p = offline_notice r)"
  proof
    fix q assume "q \<in> set new"
    with new(2) have "snd q \<in> set (frame_texts name data)" by simp
    then show "snd q = chat_line name (html_escape (take 500 body))
               \<or> snd q = echo_line (html_escape (take 500 body))
               \<or> (\<exists>r. frame_to data = Some r \<and> snd q = offline_notice r)"
      by (cases "frame_to data") (auto simp: frame_texts_def c)
  qed
  with new(1) have d: "\<exists>new. delivered (snd (route name token data w)) = delivered w @ new
          \<and> (\<forall>p\<in>set new.
                 snd p = chat_line name (html_escape (take 500 body))
               \<or> snd p = echo_line (html_escape (take 500 body))
               \<or> (\<exists>r. frame_to data = Some r \<and> snd p = offline_notice r))"
    by blast
  have b: "(frame_to data = None \<or> frame_to data = Some [])
          \<and> (\<forall>p\<in>set (others token w). sockets w (snd p) = Connected)
          \<longrightarrow> route name token data w =
                (None, w\<lparr>delivered := delivered w
                   @ copies (chat_line name (html_escape (take 500 body))) (others token w)\<rparr>)"
  proof
    assume h: "(frame_to data = None \<or> frame_to data = Some [])
          \<and> (\<forall>p\<in>set (others token w). sockets w (snd p) = Connected)"
    then have "route name token data w =
       send_broadcast_message (chat_line name (content_of data)) (Some {token}) w"
      using route_broadcast [OF _ n] route_broadcast_empty_name [OF _ n] by blast
    with h send_broadcast_all_connected [of token w] c
    show "route name token data w =
                (None, w\<lparr>delivered := delivered w
                   @ copies (chat_line name (html_escape (take 500 body))) (others token w)\<rparr>)"
      by simp
  qed
  have u: "\<forall>r t rs ws.
            frame_to data = Some r \<and> r \<noteq> [] \<and> lookup_by_name r w = Some t
          \<and> map_of (active_connections w) t = Some rs \<and> sockets w rs = Connected
          \<and> map_of (active_connections w) token = Some ws \<and> sockets w ws = Connected
          \<longrightarrow> route name token data w =
                (None, w\<lparr>delivered := delivered w
                   @ [(rs, chat_line name (html_escape (take 500 body))),
                      (ws, echo_line (html_escape (take 500 body)))]\<rparr>)"
    using route_unicast [OF _ _ n] unicast_online c by simp
  from l c g p d b u show ?thesis by blast
qed

theorem long_body_truncated_then_escaped_witness:
  "length (replicate 600 (97::nat)) = 600
   \<and> content_of long_plain = replicate 500 97
   \<and> length (content_of long_plain) = 500
   \<and> route alice token_A long_plain all_online =
        (None, all_online\<lparr>delivered :=
           [(2, chat_line alice (replicate 500 97)), (3, chat_line alice (replicate 500 97))]\<rparr>)
   \<and> route alice token_A long_to_bob all_online =
        (None, all_online\<lparr>delivered :=
           [(2, chat_line alice (replicate 500 97)), (1, echo_line (replicate 500 97))]\<rparr>)"
proof -
  have 1: "frame_message long_plain = Some (replicate 600 97)" by (simp add: long_plain_def)
  have 2: "length (replicate 600 (97::nat)) = 600" by simp
  have 3: "frame_to long_plain = None" by (simp add: long_plain_def)
  have 4: "\<forall>p\<in>set (others token_A all_online). sockets all_online (snd p) = Connected"
    by (simp add: others_all_online) (simp add: all_online_def)
  have t: "take 500 (replicate 600 (97::nat)) = replicate 500 97" by simp
  have s: "set (replicate 500 (97::nat)) \<inter> {38, 60, 62, 34, 39} = {}" by simp
  have e: "html_escape (replicate 500 97) = replicate 500 97"
    by (rule html_escape_plain [OF s])
  have d: "delivered all_online = []" by (simp add: all_online_def)
  have 5: "frame_message long_to_bob = Some (replicate 600 97)" by (simp add: long_to_bob_def)
  have 6: "frame_to long_to_bob = Some bob \<and> bob \<noteq> []"
    by (simp add: long_to_bob_def bob_def ascii_def)
  have 7: "lookup_by_name bob all_online = Some token_B"
    by (simp add: lookup_by_name_def all_online_def example_defs)
  have 8: "map_of (active_connections all_online) token_B = Some 2
     \<and> map_of (active_connections all_online) token_A = Some 1"
    by (simp add: all_online_def example_defs)
  have 9: "sockets all_online 2 = Connected \<and> sockets all_online 1 = Connected"
    by (simp add: all_online_def)
  from long_body_truncated_then_escaped [OF 1 2, of alice token_A all_online] 3 4
  have a: "content_of long_plain = replicate 500 97
   \<and> length (content_of long_plain) = 500
   \<and> route alice token_A long_plain all_online =
        (None, all_online\<lparr>delivered :=
           [(2, chat_line alice (replicate 500 97)), (3, chat_line alice (replicate 500 97))]\<rparr>)"
    by (simp add: t e d others_all_online copies_def)
  from long_body_truncated_then_escaped [OF 5 2, of alice token_A all_online] 6 7 8 9
  have b: "route alice token_A long_to_bob all_online =
        (None, all_online\<lparr>delivered :=
           [(2, chat_line alice (replicate 500 97)), (1, echo_line (replicate 500 97))]\<rparr>)"
    by (simp add: t e d)
  from a b show ?thesis by simp
qed

text \<open>
  C7 as stated fails: a body of 600 characters \<open><\<close> is delivered as 500 entities \<open>&lt;\<close>,
  2000 characters.
\<close>

theorem delivered_length_counterexample:
  "length (replicate 600 (60::nat)) = 600
   \<and> length (content_of long_markup) = 2000
   \<and> route alice token_A long_markup all_online =
        (None, all_online\<lparr>delivered :=
           [(2, chat_line alice (content_of long_markup)),
            (3, chat_line alice (content_of long_markup))]\<rparr>)"
proof -
  have c: "content_of long_markup = html_escape (replicate 500 60)"
    by (simp add: content_of_def long_markup_def)
  have l: "length (content_of long_markup) = 2000"
    by (simp add: c length_html_escape_replicate_lt)
  then have n: "content_of long_markup \<noteq> []" by auto
  have 3: "frame_to long_markup = None" by (simp add: long_markup_def)
  have 4: "\<forall>p\<in>set (others token_A all_online). sockets all_online (snd p) = Connected"
    by (simp add: others_all_online) (simp add: all_online_def)
  have d: "delivered all_online = []" by (simp add: all_online_def)
  from route_broadcast [OF 3 n, of alice token_A all_online]
    send_broadcast_all_connected [OF 4, of "chat_line alice (content_of long_markup)"] l d
  show ?thesis by (simp add: others_all_online copies_def)
qed

subsection \<open>Signup\<close>

lemma b64char_not_pad: "b64char i \<noteq> 61"
  unfolding b64char_def by arith

lemma rstrip_Cons_other: "x \<noteq> c \<Longrightarrow> rstrip c (x # xs) = x # rstrip c xs"
  by (simp add: Let_def)

lemma length_unpadded:
  "length (rstrip 61 (urlsafe_b64encode bs)) = (4 * length bs + 2) div 3"
proof (induction bs rule: urlsafe_b64encode.induct)
  case 1
  show ?case by simp
next
  case (2 a)
  show ?case by (simp add: rstrip_Cons_other b64char_not_pad)
next
  case (3 a b)
  show ?case by (simp add: rstrip_Cons_other b64char_not_pad)
next
  case (4 a b c bs)
  then show ?case by (simp add: rstrip_Cons_other b64char_not_pad)
qed

lemma length_token_urlsafe: "length (token_urlsafe n entropy) = (4 * n + 2) div 3"
  by (simp add: token_urlsafe_def token_bytes_def length_unpadded)

lemma find_name_None: "find (\<lambda>row. fst row = name) rows = None \<longleftrightarrow> name \<notin> fst ` set rows"
  by (force simp: find_None_iff)

lemma create_user_account_success:
  assumes "2 \<le> length name" and "length name \<le> 30"
    and "name \<notin> fst ` set (users w)"
    and "take 32 (token_urlsafe 32 entropy) \<notin> snd ` set (users w)"
  shows "create_user_account name entropy w =
     (Success account_created (take 32 (token_urlsafe 32 entropy)),
      w\<lparr>users := users w @ [(name, take 32 (token_urlsafe 32 entropy))]\<rparr>)"
  using assms
  by (simp add: create_user_account_def Let_def find_name_None insert_user_def)

lemma create_user_account_duplicate:
  assumes "2 \<le> length name" and "length name \<le> 30" and "name \<in> fst ` set (users w)"
  shows "create_user_account name entropy w = (HTTPException 400 already_registered, w)"
  using assms
  by (simp add: create_user_account_def Let_def find_name_None)

text \<open>
  C8, as the code has it. Signing up a name of 2 to 30 characters that is in no row of the
  table, with a token that is in no row, answers with status 200 and the token, and
  leaves exactly one token for the name. Signing up the same name again, whatever the new
  random bytes, answers 400 with no token and leaves the table as it is, so the name still
  has that one token.
\<close>

theorem signup_once:
  assumes "2 \<le> length name" and "length name \<le> 30"
    and "name \<notin> fst ` set (users w)"
    and "take 32 (token_urlsafe 32 entropy) \<notin> snd ` set (users w)"
  shows "\<exists>tok w1. create_user_account name entropy w = (Success account_created tok, w1)
     \<and> status_code (Success account_created tok) = 200
     \<and> tokens_of name w1 = [tok]
     \<and> create_user_account name entropy2 w1 = (HTTPException 400 already_registered, w1)
     \<and> status_code (HTTPException 400 already_registered) = 400
     \<and> issued_token (HTTPException 400 already_registered) = None"
proof -
  let ?tok = "take 32 (token_urlsafe 32 entropy)"
  let ?w1 = "w\<lparr>users := users w @ [(name, ?tok)]\<rparr>"
  from assms(3) have "filter (\<lambda>row. fst row = name) (users w) = []"
    by (auto simp: filter_empty_conv)
  then have t: "tokens_of name ?w1 = [?tok]" by (simp add: tokens_of_def)
  have "name \<in> fst ` set (users ?w1)" by simp
  from create_user_account_duplicate [OF assms(1,2) this]
  have d: "create_user_account name entropy2 ?w1 = (HTTPException 400 already_registered, ?w1)" .
  from create_user_account_success [OF assms] t d show ?thesis by simp
qed

lemma token_zeros: "take 32 (token_urlsafe 32 zeros) = token_A"
  unfolding token_urlsafe_def token_bytes_def zeros_def token_A_def
  by code_simp

lemma signup_alice:
  "create_user_account alice zeros no_users
     = (Success account_created token_A, no_users\<lparr>users := [(alice, token_A)]\<rparr>)"
proof -
  have 1: "2 \<le> length alice" and 2: "length alice \<le> 30" by (simp_all add: alice_def ascii_def)
  have 3: "alice \<notin> fst ` set (users no_users)" by (simp add: no_users_def)
  have 4: "take 32 (token_urlsafe 32 zeros) \<notin> snd ` set (users no_users)"
    by (simp add: no_users_def)
  have u: "users no_users = []" by (simp add: no_users_def)
  from create_user_account_success [OF 1 2 3 4] show ?thesis
    by (simp add: token_zeros u)
qed

theorem signup_once_witness:
  "create_user_account alice zeros no_users
     = (Success account_created token_A, no_users\<lparr>users := [(alice, token_A)]\<rparr>)
   \<and> create_user_account alice zeros (no_users\<lparr>users := [(alice, token_A)]\<rparr>)
     = (HTTPException 400 already_registered, no_users\<lparr>users := [(alice, token_A)]\<rparr>)
   \<and> tokens_of alice (no_users\<lparr>users := [(alice, token_A)]\<rparr>) = [token_A]"
proof -
  have 1: "2 \<le> length alice" and 2: "length alice \<le> 30" by (simp_all add: alice_def ascii_def)
  have 3: "alice \<notin> fst ` set (users no_users)" by (simp add: no_users_def)
  have 4: "take 32 (token_urlsafe 32 zeros) \<notin> snd ` set (users no_users)"
    by (simp add: no_users_def)
  from signup_once [OF 1 2 3 4, of zeros] show ?thesis
    by (auto simp: signup_alice)
qed

text \<open>
  C8 as stated fails: the first signup of \<open>alice\<close> answers with status 200, not 201.
\<close>

theorem signup_status_counterexample:
  "status_code (fst (create_user_account alice zeros no_users)) = 200
   \<and> issued_token (fst (create_user_account alice zeros no_users)) = Some token_A"
  by (simp add: signup_alice)

text \<open>
  C10. Whatever the name, the random bytes and the table: a token the signup returns has
  exactly 32 characters and comes with status 200 for a name of 2 to 30 characters; a name
  shorter than 2 or longer than 30 characters is answered with 422 and changes nothing.
\<close>

theorem issued_token_and_name_length:
  assumes "create_user_account name entropy w = (r, w')"
  shows "(issued_token r = Some tok \<longrightarrow>
            length tok = 32 \<and> status_code r = 200 \<and> 2 \<le> length name \<and> length name \<le> 30)
     \<and> (length name < 2 \<or> 30 < length name \<longrightarrow>
            r = RequestValidationError \<and> status_code r = 422 \<and> w' = w)"
proof (cases "2 \<le> length name \<and> length name \<le> 30")
  case False
  with assms show ?thesis by (auto simp: create_user_account_def)
next
  case True
  show ?thesis
  proof (cases "name \<in> fst ` set (users w)")
    case True
    with \<open>2 \<le> length name \<and> length name \<le> 30\<close> assms show ?thesis
      by (auto simp: create_user_account_duplicate)
  next
    case False
    show ?thesis
    proof (cases "take 32 (token_urlsafe 32 entropy) \<in> snd ` set (users w)")
      case True
      with False \<open>2 \<le> length name \<and> length name \<le> 30\<close> assms show ?thesis
        by (auto simp: create_user_account_def Let_def find_name_None insert_user_def)
    next
      case t: False
      with False True assms
      have "r = Success account_created (take 32 (token_urlsafe 32 entropy))"
        by (simp add: create_user_account_success)
      with True show ?thesis by (auto simp: length_token_urlsafe)
    qed
  qed
qed

theorem issued_token_and_name_length_witness:
  "issued_token (fst (create_user_account alice zeros no_users)) = Some token_A
   \<and> length token_A = 32 \<and> length alice = 5
   \<and> length (ascii ''a'') < 2
   \<and> fst (create_user_account (ascii ''a'') zeros no_users) = RequestValidationError"
proof -
  obtain r w' where a: "create_user_account alice zeros no_users = (r, w')"
    by (cases "create_user_account alice zeros no_users")
  obtain r2 w2 where b: "create_user_account (ascii ''a'') zeros no_users = (r2, w2)"
    by (cases "create_user_account (ascii ''a'') zeros no_users")
  have l: "length (ascii ''a'') < 2" by (simp add: ascii_def)
  have i: "issued_token r = Some token_A" using a by (auto simp: signup_alice)
  from issued_token_and_name_length [OF a, of token_A]
    issued_token_and_name_length [OF b, of token_A] a b l i show ?thesis
    by (simp add: alice_def ascii_def)
qed

subsection \<open>Markup in delivered texts\<close>

lemma script_tag_hd: "script_tag = 60 # tl script_tag"
  by (simp add: script_tag_def ascii_def)

lemma no_script_plain: "60 \<notin> set p \<Longrightarrow> \<not> sublist script_tag p"
proof
  assume a: "60 \<notin> set p" and b: "sublist script_tag p"
  from b have "set script_tag \<subseteq> set p" by (rule set_mono_sublist)
  moreover have "60 \<in> set script_tag" by (simp add: script_tag_def ascii_def)
  ultimately show False using a by auto
qed

lemma no_script_append:
  assumes "\<not> sublist script_tag a" and "60 \<notin> set b" and "b = [] \<or> hd b \<notin> set script_tag"
  shows "\<not> sublist script_tag (a @ b)"
proof
  assume "sublist script_tag (a @ b)"
  then consider "sublist script_tag a" | "sublist script_tag b"
    | xs1 xs2 where "script_tag = xs1 @ xs2" "suffix xs1 a" "prefix xs2 b"
    by (auto simp: sublist_append)
  then show False
  proof cases
    case 1
    with assms(1) show False by simp
  next
    case 2
    with no_script_plain [OF assms(2)] show False by simp
  next
    case 3
    show False
    proof (cases xs2)
      case Nil
      with 3 have "suffix script_tag a" by simp
      then have "sublist script_tag a" by (rule suffix_imp_sublist)
      with assms(1) show False by simp
    next
      case (Cons x xs)
      with 3(3) obtain zs where b: "b = x # zs" by (auto simp: prefix_def)
      from Cons 3(1) have "set script_tag = set xs1 \<union> set (x # xs)" by (metis set_append)
      then have "x \<in> set script_tag" by simp
      with b assms(3) show False by simp
    qed
  qed
qed

lemma no_script_prepend:
  assumes "60 \<notin> set a" and "\<not> sublist script_tag b"
  shows "\<not> sublist script_tag (a @ b)"
proof
  assume "sublist script_tag (a @ b)"
  then consider "sublist script_tag a" | "sublist script_tag b"
    | xs1 xs2 where "script_tag = xs1 @ xs2" "suffix xs1 a" "prefix xs2 b"
    by (auto simp: sublist_append)
  then show False
  proof cases
    case 1
    with no_script_plain [OF assms(1)] show False by simp
  next
    case 2
    with assms(2) show False by simp
  next
    case 3
    show False
    proof (cases xs1)
      case Nil
      with 3 have "prefix script_tag b" by simp
      then have "sublist script_tag b" by (rule prefix_imp_sublist)
      with assms(2) show False by simp
    next
      case (Cons x xs)
      with 3(1) script_tag_hd have "x = 60" by (metis append_Cons list.inject)
      with Cons have "60 \<in> set xs1" by simp
      moreover from 3(2) have "set xs1 \<subseteq> set a" by (rule set_mono_suffix)
      ultimately show False using assms(1) by auto
    qed
  qed
qed

lemma chat_line_clean:
  "\<not> sublist script_tag name \<Longrightarrow> \<not> sublist script_tag (chat_line name (content_of data))"
  unfolding chat_line_def
  by (rule no_script_append)
     (simp_all add: content_of_def html_escape_no_markup ascii_def script_tag_def)

lemma echo_line_clean: "\<not> sublist script_tag (echo_line (content_of data))"
  by (rule no_script_plain)
     (simp add: echo_line_def content_of_def html_escape_no_markup ascii_def)

lemma joined_notice_clean:
  "\<not> sublist script_tag name \<Longrightarrow> \<not> sublist script_tag (joined_notice name)"
  unfolding joined_notice_def
  by (rule no_script_append) (simp_all add: ascii_def script_tag_def)

lemma left_notice_clean:
  "\<not> sublist script_tag name \<Longrightarrow> \<not> sublist script_tag (left_notice name)"
  unfolding left_notice_def
  by (rule no_script_append) (simp_all add: ascii_def script_tag_def)

lemma offline_notice_clean:
  assumes "\<not> sublist script_tag recipient"
  shows "\<not> sublist script_tag (offline_notice recipient)"
  unfolding offline_notice_def
proof (rule no_script_prepend)
  show "60 \<notin> set [1055, 1086, 1083, 1100, 1079, 1086, 1074, 1072, 1090, 1077, 1083, 1100, 32::nat]"
    by simp
  show "\<not> sublist script_tag
          (recipient @ [32, 1085, 1077, 32, 1074, 32, 1089, 1077, 1090, 1080, 46])"
    using assms by (rule no_script_append) (simp_all add: ascii_def script_tag_def)
qed

lemma frame_texts_clean:
  assumes "\<not> sublist script_tag name"
    and "\<not> sublist script_tag (recipient_of (Frame data))"
  shows "\<forall>m\<in>set (frame_texts name data). \<not> sublist script_tag m"
proof (cases "frame_to data")
  case None
  then show ?thesis
    by (simp add: frame_texts_def chat_line_clean [OF assms(1)] echo_line_clean)
next
  case (Some r)
  with assms(2) have "\<not> sublist script_tag r" by (simp add: recipient_of_def)
  then have "\<not> sublist script_tag (offline_notice r)" by (rule offline_notice_clean)
  with Some show ?thesis
    by (simp add: frame_texts_def chat_line_clean [OF assms(1)] echo_line_clean)
qed

lemma run_texts_clean:
  assumes "\<not> sublist script_tag name"
    and "\<forall>ev\<in>set evs. \<not> sublist script_tag (recipient_of ev)"
  shows "\<forall>m\<in>set (run_texts name evs). \<not> sublist script_tag m"
proof -
  have "\<forall>m\<in>set (event_texts name ev). \<not> sublist script_tag m" if "ev \<in> set evs" for ev
  proof (cases ev)
    case (Frame data)
    with that assms(2) have "\<not> sublist script_tag (recipient_of (Frame data))" by auto
    from frame_texts_clean [OF assms(1) this] Frame show ?thesis
      by (simp add: event_texts_def)
  next
    case ClientDisconnect
    then show ?thesis by (simp add: event_texts_def)
  qed
  then show ?thesis
    by (auto simp: run_texts_def joined_notice_clean [OF assms(1)]
        left_notice_clean [OF assms(1)])
qed

text \<open>
  C1, as the code has it. Whatever a handler does from its handshake on (any frames, its
  disconnect), it only appends to the log, and every text it appends is one of the
  texts of the run: the join and the leave notice of its name and, for each frame, the
  chat line and the echo line built from the escaped body and the offline notice built
  from the frame's recipient. The escaped body is the first 500 characters of the body
  with each \<open>&\<close>, \<open><\<close>, \<open>>\<close>, \<open>"\<close> and \<open>'\<close> replaced by its entity and every other character
  kept, so it holds no \<open><\<close>, \<open>>\<close>, \<open>"\<close> or \<open>'\<close>, and an \<open>&\<close> only where an entity starts. The name
  and the recipient go into the texts as they are. So if \<open><script>\<close> is no substring of
  the name and of no frame's recipient name, it is a substring of none of the appended
  texts, whatever the message bodies are.
\<close>

theorem no_raw_script_tag:
  assumes "handle_websocket_connection websocket name token evs w = (st, w')"
  shows "(\<exists>new. delivered w' = delivered w @ new
            \<and> (\<forall>p\<in>set new. snd p \<in> set (run_texts name evs))
            \<and> (\<not> sublist script_tag name
                 \<and> (\<forall>ev\<in>set evs. \<not> sublist script_tag (recipient_of ev))
                 \<longrightarrow> (\<forall>p\<in>set new. \<not> sublist script_tag (snd p))))
     \<and> content_of data =
         concat (map (\<lambda>x. if x = 38 then ascii ''&amp;''
                          else if x = 60 then ascii ''&lt;''
                          else if x = 62 then ascii ''&gt;''
                          else if x = 34 then ascii ''&quot;''
                          else if x = 39 then ascii ''&#x27;''
                          else [x])
                   (take 500 (case frame_message data of None \<Rightarrow> [] | Some m \<Rightarrow> m)))
     \<and> 60 \<notin> set (content_of data) \<and> 62 \<notin> set (content_of data)
     \<and> 34 \<notin> set (content_of data) \<and> 39 \<notin> set (content_of data)"
proof -
  have "only_adds (\<lambda>m. m \<in> set (run_texts name evs)) w w'"
    by (rule handler_adds_run_texts [OF _ assms]) simp
  then obtain new where n: "delivered w' = delivered w @ new"
    "\<forall>p\<in>set new. snd p \<in> set (run_texts name evs)"
    by (auto simp: only_adds_def)
  have c: "\<not> sublist script_tag name
                 \<and> (\<forall>ev\<in>set evs. \<not> sublist script_tag (recipient_of ev))
                 \<longrightarrow> (\<forall>p\<in>set new. \<not> sublist script_tag (snd p))"
    using run_texts_clean [of name evs] n(2) by blast
  have e: "content_of data =
         concat (map (\<lambda>x. if x = 38 then ascii ''&amp;''
                          else if x = 60 then ascii ''&lt;''
                          else if x = 62 then ascii ''&gt;''
                          else if x = 34 then ascii ''&quot;''
                          else if x = 39 then ascii ''&#x27;''
                          else [x])
                   (take 500 (case frame_message data of None \<Rightarrow> [] | Some m \<Rightarrow> m)))"
    unfolding content_of_def html_escape_concat escape_one_eq ..
  have m: "60 \<notin> set (content_of data) \<and> 62 \<notin> set (content_of data)
     \<and> 34 \<notin> set (content_of data) \<and> 39 \<notin> set (content_of data)"
    by (simp add: content_of_def html_escape_no_markup html_escape_no_quotes)
  from n c e m show ?thesis by blast
qed

lemma content_of_script_body: "content_of script_body = ascii ''&lt;script&gt;''"
  by (simp add: content_of_def script_body_def script_tag_def html_escape_Cons html_escape_Nil
      escape_one_def ascii_def)

lemma run_alice:
  "handle_websocket_connection 2 alice token_A [Frame script_body] carol_online
     = (Receiving,
        carol_online\<lparr>sockets := (sockets carol_online)(2 := Connected),
          active_connections := [(token_C, 1), (token_A, 2)],
          delivered := [(1, joined_notice alice), (1, ascii ''alice >>> &lt;script&gt;'')]\<rparr>)"
proof -
  have h: "handshake 2 alice token_A carol_online
     = (Receiving,
        carol_online\<lparr>sockets := (sockets carol_online)(2 := Connected),
          active_connections := [(token_C, 1), (token_A, 2)],
          delivered := [(1, joined_notice alice)]\<rparr>)"
    by (simp add: handshake_def verify_access_token_def carol_online_def
        establish_connection_def accept_def and_then_def send_broadcast_message_def
        excluded_def send_text_def example_defs)
  have 5: "frame_to script_body = None" by (simp add: script_body_def)
  have 6: "content_of script_body \<noteq> []" by (simp add: content_of_script_body ascii_def)
  have l: "chat_line alice (content_of script_body) = ascii ''alice >>> &lt;script&gt;''"
    by (simp add: chat_line_def content_of_script_body example_defs)
  have r: "route alice token_A script_body
        (carol_online\<lparr>sockets := (sockets carol_online)(2 := Connected),
          active_connections := [(token_C, 1), (token_A, 2)],
          delivered := [(1, joined_notice alice)]\<rparr>)
     = (None,
        carol_online\<lparr>sockets := (sockets carol_online)(2 := Connected),
          active_connections := [(token_C, 1), (token_A, 2)],
          delivered := [(1, joined_notice alice), (1, ascii ''alice >>> &lt;script&gt;'')]\<rparr>)"
    unfolding route_broadcast [OF 5 6] l
    by (simp add: send_broadcast_message_def carol_online_def excluded_def send_text_def
        and_then_def token_A_def token_C_def)
  from h r show ?thesis
    by (simp add: handle_websocket_connection_def turn_def receive_def)
qed

theorem no_raw_script_tag_witness:
  "\<not> sublist script_tag alice
   \<and> delivered (snd (handle_websocket_connection 2 alice token_A [Frame script_body] carol_online))
       = [(1, joined_notice alice), (1, ascii ''alice >>> &lt;script&gt;'')]
   \<and> \<not> sublist script_tag (joined_notice alice)
   \<and> \<not> sublist script_tag (ascii ''alice >>> &lt;script&gt;'')
   \<and> content_of script_body = ascii ''&lt;script&gt;''
   \<and> content_of amp_body = ascii ''Tom &amp; Jerry''"
proof -
  have 1: "\<not> sublist script_tag alice"
    by (rule no_script_plain) (simp add: alice_def ascii_def)
  have 2: "\<forall>ev\<in>set [Frame script_body]. \<not> sublist script_tag (recipient_of ev)"
    by (simp add: recipient_of_def script_body_def script_tag_def ascii_def)
  have d: "delivered carol_online = []" by (simp add: carol_online_def)
  have a: "content_of amp_body = ascii ''Tom &amp; Jerry''"
    using no_raw_script_tag [OF run_alice, of amp_body]
    by (simp add: amp_body_def ascii_def)
  have b: "content_of script_body = ascii ''&lt;script&gt;''"
    using no_raw_script_tag [OF run_alice, of script_body]
    by (simp add: script_body_def script_tag_def ascii_def)
  from no_raw_script_tag [OF run_alice, of script_body] 1 2 d a b show ?thesis
    by (auto simp: run_alice)
qed

text \<open>
  C1 as stated fails: a client that connects under the name \<open><script>\<close> has the tag
  delivered raw to Carol in the join notice, and a frame of Carol addressed to the
  recipient \<open><script>\<close> brings the tag back raw in the offline notice.
\<close>

theorem raw_script_tag_counterexample:
  "delivered (snd (handle_websocket_connection 2 script_tag token_A [] carol_online))
     = [(1, joined_notice script_tag)]
   \<and> sublist script_tag (joined_notice script_tag)
   \<and> delivered (snd (route carol token_C to_script carol_online))
     = [(1, offline_notice script_tag)]
   \<and> sublist script_tag (offline_notice script_tag)"
proof -
  have a: "delivered (snd (handle_websocket_connection 2 script_tag token_A [] carol_online))
     = [(1, joined_notice script_tag)]"
    by (simp add: handle_websocket_connection_def handshake_def verify_access_token_def
        carol_online_def establish_connection_def accept_def and_then_def
        send_broadcast_message_def excluded_def send_text_def example_defs)
  have b: "sublist script_tag (joined_notice script_tag)"
    unfolding joined_notice_def by (rule sublist_append_rightI)
  have c: "content_of to_script \<noteq> []"
    by (simp add: content_of_def to_script_def html_escape_eq_Nil ascii_def)
  have n: "script_tag \<noteq> []" by (simp add: script_tag_def ascii_def)
  have f: "find (\<lambda>row. fst row = script_tag) (users carol_online) = None"
    by (simp add: carol_online_def script_tag_def example_defs)
  have "route carol token_C to_script carol_online
     = send_private_message (offline_notice script_tag) token_C carol_online"
    using c n f by (simp add: route_def Let_def to_script_def unicast_def)
  then have d: "delivered (snd (route carol token_C to_script carol_online))
     = [(1, offline_notice script_tag)]"
    by (simp add: send_private_message_def carol_online_def send_text_def)
  have e: "sublist script_tag (offline_notice script_tag)"
    unfolding offline_notice_def by (rule sublist_appendI)
  from a b d e show ?thesis by simp
qed

end
